theory Spec2Isabelle
  imports Complex_Main
begin

section \<open>JavaScript numbers\<close>

text \<open>
  A JavaScript number is modelled as a real, extended by the three special values the
  source can produce (\<open>NaN\<close> from \<open>parseFloat\<close> of a non-numeric string or from
  \<open>0 / 0\<close>, the infinities from a division by zero or an overflow). The sign of zero is
  not modelled: \<open>x / 0\<close> takes the sign of \<open>x\<close>. The operations \<open>jmul\<close> and \<open>jdiv\<close>
  give the exact product and quotient; \<open>dmul\<close> and \<open>ddiv\<close> below round them to double
  precision, as the arithmetic of the layout step does.
\<close>

datatype jsnum = NaN | NegInf | Fin real | PosInf

fun jmul :: "jsnum \<Rightarrow> jsnum \<Rightarrow> jsnum" where
  "jmul NaN _ = NaN"
| "jmul _ NaN = NaN"
| "jmul (Fin a) (Fin b) = Fin (a * b)"
| "jmul (Fin a) PosInf = (if a = 0 then NaN else if 0 < a then PosInf else NegInf)"
| "jmul (Fin a) NegInf = (if a = 0 then NaN else if 0 < a then NegInf else PosInf)"
| "jmul PosInf (Fin b) = (if b = 0 then NaN else if 0 < b then PosInf else NegInf)"
| "jmul NegInf (Fin b) = (if b = 0 then NaN else if 0 < b then NegInf else PosInf)"
| "jmul PosInf PosInf = PosInf"
| "jmul PosInf NegInf = NegInf"
| "jmul NegInf PosInf = NegInf"
| "jmul NegInf NegInf = PosInf"

fun jdiv :: "jsnum \<Rightarrow> jsnum \<Rightarrow> jsnum" where
  "jdiv NaN _ = NaN"
| "jdiv _ NaN = NaN"
| "jdiv (Fin a) (Fin b) =
     (if b = 0 then (if a = 0 then NaN else if 0 < a then PosInf else NegInf)
      else Fin (a / b))"
| "jdiv (Fin a) PosInf = Fin 0"
| "jdiv (Fin a) NegInf = Fin 0"
| "jdiv PosInf (Fin b) = (if 0 \<le> b then PosInf else NegInf)"
| "jdiv NegInf (Fin b) = (if 0 \<le> b then NegInf else PosInf)"
| "jdiv PosInf _ = NaN"
| "jdiv NegInf _ = NaN"

text \<open>\<open>a <= b\<close> and \<open>a > b\<close>: both are false as soon as one operand is \<open>NaN\<close>.\<close>

fun jle :: "jsnum \<Rightarrow> jsnum \<Rightarrow> bool" where
  "jle NaN _ = False"
| "jle _ NaN = False"
| "jle NegInf _ = True"
| "jle _ PosInf = True"
| "jle (Fin a) (Fin b) = (a \<le> b)"
| "jle (Fin a) NegInf = False"
| "jle PosInf _ = False"


text \<open>\<open>Math.min(a, b)\<close>: \<open>NaN\<close> if either argument is.\<close>

fun jmin :: "jsnum \<Rightarrow> jsnum \<Rightarrow> jsnum" where
  "jmin NaN _ = NaN"
| "jmin _ NaN = NaN"
| "jmin a b = (if jle a b then a else b)"

section \<open>Double precision\<close>

text \<open>
  IEEE 754 binary64 rounding of a real: to the nearest number with a significand of 53
  bits, ties to the even significand; the exponent is at least \<open>-1022\<close> (below it the
  spacing stays \<open>2^-1074\<close>, the subnormal numbers), and a result of \<open>2^1024\<close> or more is
  an infinity. \<open>exponent2 a\<close> is the \<open>e\<close> with \<open>2^e \<le> a < 2^(e + 1)\<close> for a positive \<open>a\<close>.
\<close>

fun bit_length :: "nat \<Rightarrow> nat" where
  "bit_length n = (if n = 0 then 0 else Suc (bit_length (n div 2)))"

definition pow2 :: "int \<Rightarrow> real" where
  "pow2 e = (if 0 \<le> e then 2 ^ nat e else 1 / 2 ^ nat (- e))"

definition exponent2 :: "real \<Rightarrow> int" where
  "exponent2 a =
     (if 1 \<le> a then int (bit_length (nat \<lfloor>a\<rfloor>)) - 1
      else let k = int (bit_length (nat \<lfloor>1 / a\<rfloor>)) - 1
           in if a * pow2 k = 1 then - k else - k - 1)"

definition round_half_even :: "real \<Rightarrow> int" where
  "round_half_even y =
     (let f = \<lfloor>y\<rfloor>; r = y - of_int f
      in if r < 1 / 2 then f else if 1 / 2 < r then f + 1
         else if even f then f else f + 1)"

definition round_double :: "real \<Rightarrow> jsnum" where
  "round_double x =
     (if x = 0 then Fin 0
      else
        let a = \<bar>x\<bar>;
            e = max (exponent2 a) (- 1022);
            q = pow2 (e - 52);
            r = of_int (round_half_even (a / q)) * q
        in if pow2 1024 \<le> r then (if 0 < x then PosInf else NegInf)
           else Fin (if 0 < x then r else - r))"

definition to_double :: "jsnum \<Rightarrow> jsnum" where
  "to_double n = (case n of Fin x \<Rightarrow> round_double x | v \<Rightarrow> v)"

definition dmul :: "jsnum \<Rightarrow> jsnum \<Rightarrow> jsnum" where
  "dmul a b = to_double (jmul a b)"

definition ddiv :: "jsnum \<Rightarrow> jsnum \<Rightarrow> jsnum" where
  "ddiv a b = to_double (jdiv a b)"

section \<open>JavaScript strings\<close>




definition endsWith :: "string \<Rightarrow> string \<Rightarrow> bool" where
  "endsWith s t = (length t \<le> length s \<and> drop (length s - length t) s = t)"

definition startsWith :: "string \<Rightarrow> string \<Rightarrow> bool" where
  "startsWith s t = (take (length t) s = t)"








section \<open>Dimension values\<close>



section \<open>JavaScript values\<close>

text \<open>
  A theme descriptor is whatever \<open>response.json()\<close> returns, so it is modelled as an
  untyped JavaScript value. An object is the association list of its own properties,
  each key listed once.
\<close>

datatype jsval =
    Undefined
  | Null
  | Bool bool
  | Num jsnum
  | Str string
  | Arr "jsval list"
  | Obj "(string \<times> jsval) list"

datatype error = TypeError | Error string

fun truthy :: "jsval \<Rightarrow> bool" where
  "truthy Undefined = False"
| "truthy Null = False"
| "truthy (Bool b) = b"
| "truthy (Num n) = (n \<noteq> NaN \<and> n \<noteq> Fin 0)"
| "truthy (Str s) = (s \<noteq> [])"
| "truthy (Arr _) = True"
| "truthy (Obj _) = True"

definition nullish :: "jsval \<Rightarrow> bool" where
  "nullish v = (v = Undefined \<or> v = Null)"

text \<open>\<open>a || b\<close> and \<open>a ?? b\<close>.\<close>

definition js_or :: "jsval \<Rightarrow> jsval \<Rightarrow> jsval" where
  "js_or a b = (if truthy a then a else b)"

definition js_nc :: "jsval \<Rightarrow> jsval \<Rightarrow> jsval" where
  "js_nc a b = (if nullish a then b else a)"

text \<open>
  \<open>v?.k\<close>: \<open>undefined\<close> on \<open>null\<close> and \<open>undefined\<close>, the own property of an object,
  and \<open>undefined\<close> on every other value (none of the property names the parser reads is
  defined on a boolean, a number, a string or an array).
\<close>

fun opt_prop :: "jsval \<Rightarrow> string \<Rightarrow> jsval" where
  "opt_prop (Obj kvs) k = (case map_of kvs k of None \<Rightarrow> Undefined | Some v \<Rightarrow> v)"
| "opt_prop _ k = Undefined"

text \<open>\<open>v.k\<close>: a \<open>TypeError\<close> on \<open>null\<close> and \<open>undefined\<close>.\<close>

definition get_prop :: "jsval \<Rightarrow> string \<Rightarrow> error + jsval" where
  "get_prop v k = (if nullish v then Inl TypeError else Inr (opt_prop v k))"

definition bind :: "'e + 'a \<Rightarrow> ('a \<Rightarrow> 'e + 'b) \<Rightarrow> 'e + 'b" where
  "bind m f = (case m of Inl e \<Rightarrow> Inl e | Inr a \<Rightarrow> f a)"

section \<open>ConfigParser\<close>

record side_config =
  side_image :: jsval
  side_background :: jsval
  side_width :: jsval
  side_height :: jsval

text \<open>
  A content area; a property the object does not have reads as \<open>Undefined\<close>.
\<close>

record area_config =
  area_id :: jsval
  area_side :: jsval
  area_x :: jsval
  area_y :: jsval
  area_width :: jsval
  area_height :: jsval
  area_position :: jsval
  area_fit :: jsval
  area_style :: jsval

record config =
  front_side :: side_config
  back_side :: side_config
  contentArea :: "area_config list"

definition DEFAULT_BACKGROUND :: string where
  "DEFAULT_BACKGROUND = ''#eeeeee''"

text \<open>\<open>ConfigParser._parseSideConfig\<close>\<close>

definition parseSideConfig :: "jsval \<Rightarrow> error + side_config" where
  "parseSideConfig sideConfig =
     bind (get_prop sideConfig ''image'') (\<lambda>image.
     bind (get_prop sideConfig ''background'') (\<lambda>background.
     bind (get_prop sideConfig ''width'') (\<lambda>width.
     bind (get_prop sideConfig ''height'') (\<lambda>height.
       let result = \<lparr> side_image = js_or image Null,
                      side_background = js_or background (Str DEFAULT_BACKGROUND),
                      side_width = js_nc width Null,
                      side_height = js_nc height Null \<rparr>
       in Inr (if \<not> truthy image \<and> \<not> truthy width \<and> \<not> truthy height \<and> \<not> truthy background
               then result \<lparr> side_background := Str DEFAULT_BACKGROUND \<rparr>
               else result)))))"

text \<open>
  \<open>ConfigParser._parseContentAreas\<close>: the two areas returned for a missing or empty list
  carry \<open>area\<close> and \<open>side\<close> only.
\<close>

definition default_areas :: "area_config list" where
  "default_areas =
     [ \<lparr> area_id = Num (Fin 0), area_side = Str ''front'', area_x = Undefined,
         area_y = Undefined, area_width = Undefined, area_height = Undefined,
         area_position = Undefined, area_fit = Undefined, area_style = Undefined \<rparr>,
       \<lparr> area_id = Num (Fin 1), area_side = Str ''back'', area_x = Undefined,
         area_y = Undefined, area_width = Undefined, area_height = Undefined,
         area_position = Undefined, area_fit = Undefined, area_style = Undefined \<rparr> ]"

definition parseAreaEntry :: "nat \<Rightarrow> jsval \<Rightarrow> error + area_config" where
  "parseAreaEntry index area =
     (if nullish area then Inl TypeError
      else Inr \<lparr>
        area_id = js_nc (opt_prop area ''area'') (Num (Fin (real index))),
        area_side = js_or (opt_prop area ''side'') (if index = 0 then Str ''front'' else Str ''back''),
        area_x = js_nc (opt_prop area ''x'') (if index = 0 then Num (Fin 0) else Num (Fin 0.1)),
        area_y = js_nc (opt_prop area ''y'') (if index = 0 then Num (Fin 0) else Num (Fin 0.1)),
        area_width = js_nc (opt_prop area ''width'') (if index = 0 then Num (Fin 1) else Num (Fin 0.8)),
        area_height = js_nc (opt_prop area ''height'') (if index = 0 then Num (Fin 1) else Num (Fin 0.8)),
        area_position = js_or (opt_prop area ''position'') (Str ''center''),
        area_fit = js_or (opt_prop area ''fit'') (Str ''contain''),
        area_style = js_or (opt_prop area ''style'') (Obj []) \<rparr>)"

text \<open>\<open>areas.map((area, index) => ...)\<close>, stopping at the first entry that throws.\<close>

fun parseAreaEntries :: "nat \<Rightarrow> jsval list \<Rightarrow> error + area_config list" where
  "parseAreaEntries index [] = Inr []"
| "parseAreaEntries index (area # rest) =
     bind (parseAreaEntry index area) (\<lambda>a.
     bind (parseAreaEntries (Suc index) rest) (\<lambda>as. Inr (a # as)))"

definition parseContentAreas :: "jsval \<Rightarrow> error + area_config list" where
  "parseContentAreas areas =
     (case areas of
        Arr (a # as) \<Rightarrow> parseAreaEntries 0 (a # as)
      | _ \<Rightarrow> Inr default_areas)"

text \<open>\<open>ConfigParser._resolveDependencies\<close>\<close>

definition resolveDependencies :: "config \<Rightarrow> config" where
  "resolveDependencies cfg =
     (let b1 = (if side_width (back_side cfg) = Null
                then (back_side cfg) \<lparr> side_width := side_width (front_side cfg) \<rparr> else back_side cfg);
          b2 = (if side_height b1 = Null
                then b1 \<lparr> side_height := side_height (front_side cfg) \<rparr> else b1)
      in cfg \<lparr> back_side := b2 \<rparr>)"

text \<open>
  \<open>ConfigParser._resolvePath\<close>: \<open>path.startsWith\<close> is a method of strings only, so any
  other truthy path throws.
\<close>

definition resolvePath :: "jsval \<Rightarrow> string \<Rightarrow> error + jsval" where
  "resolvePath path base =
     (case path of
        Str p \<Rightarrow>
          Inr (Str (if startsWith p ''http'' \<or> startsWith p ''/'' then p
                    else if startsWith p ''./'' then base @ drop 2 p
                    else base @ p))
      | _ \<Rightarrow> Inl TypeError)"

definition resolveSideImage :: "side_config \<Rightarrow> string \<Rightarrow> error + side_config" where
  "resolveSideImage sc base =
     (if truthy (side_image sc)
      then bind (resolvePath (side_image sc) base) (\<lambda>p. Inr (sc \<lparr> side_image := p \<rparr>))
      else Inr sc)"

text \<open>\<open>ConfigParser._resolveImagePaths\<close>\<close>

definition resolveImagePaths :: "config \<Rightarrow> string \<Rightarrow> error + config" where
  "resolveImagePaths cfg themeBase =
     (if themeBase = [] then Inr cfg
      else
        let base = (if endsWith themeBase ''/'' then themeBase else themeBase @ ''/'') in
        bind (resolveSideImage (front_side cfg) base) (\<lambda>f.
        bind (resolveSideImage (back_side cfg) base) (\<lambda>b.
          Inr (cfg \<lparr> front_side := f, back_side := b \<rparr>))))"

text \<open>
  \<open>ConfigParser._validate\<close>: its only effect is on the console; the model returns the
  warnings it prints (\<open>contentArea[0] should have side="front"\<close> and
  \<open>contentArea[1] should have side="back"\<close>). \<open>config.contentArea[i]?.side\<close> is
  \<open>undefined\<close> past the end of the list.
\<close>

datatype warning = Area0_should_be_front | Area1_should_be_back

definition side_at :: "area_config list \<Rightarrow> nat \<Rightarrow> jsval" where
  "side_at areas i = (if i < length areas then area_side (areas ! i) else Undefined)"

definition validate :: "config \<Rightarrow> warning list" where
  "validate cfg =
     (if side_at (contentArea cfg) 0 \<noteq> Str ''front'' then [Area0_should_be_front] else []) @
     (if side_at (contentArea cfg) 1 \<noteq> Str ''back'' then [Area1_should_be_back] else [])"

text \<open>
  \<open>ConfigParser.parse\<close>: the normalized config together with the warnings printed, or
  the exception thrown.
\<close>

definition parse :: "jsval \<Rightarrow> string \<Rightarrow> error + (config \<times> warning list)" where
  "parse rawConfig themeBase =
     bind (get_prop rawConfig ''front'') (\<lambda>rf.
     bind (parseSideConfig (js_or rf (Obj []))) (\<lambda>f.
     bind (get_prop rawConfig ''back'') (\<lambda>rb.
     bind (parseSideConfig (js_or rb (Obj []))) (\<lambda>b.
     bind (get_prop rawConfig ''contentArea'') (\<lambda>ra.
     bind (parseContentAreas (js_or ra (Arr []))) (\<lambda>ca.
     bind (resolveImagePaths
             (resolveDependencies \<lparr> front_side = f, back_side = b, contentArea = ca \<rparr>) themeBase)
       (\<lambda>cfg. Inr (cfg, validate cfg))))))))"

section \<open>Dimension resolution\<close>

text \<open>
  An entry of \<open>loadedImages\<close>: the natural size of an image that loaded, and its URL. The
  keys \<open>frontFrame\<close>, \<open>backFrame\<close> and \<open>content_<index>\<close> are a datatype.
\<close>

record loaded_image =
  img_width :: nat
  img_height :: nat
  img_url :: jsval

datatype image_key = FrontFrame | BackFrame | Content nat

type_synonym loaded_images = "image_key \<Rightarrow> loaded_image option"

record dims =
  width :: jsval
  height :: jsval

record dimensions =
  front_dims :: dims
  back_dims :: dims
  realpic :: dims

definition pixels :: "nat \<Rightarrow> jsval" where
  "pixels n = Num (Fin (real n))"

text \<open>\<open>ConfigParser.getDimensions\<close>\<close>

definition getDimensions :: "config \<Rightarrow> loaded_images \<Rightarrow> dimensions" where
  "getDimensions cfg loadedImages =
     (let frontWidth0 = side_width (front_side cfg);
          frontHeight0 = side_height (front_side cfg);
          (frontWidth1, frontHeight1) =
            (if frontWidth0 = Null \<or> frontHeight0 = Null then
               (case loadedImages FrontFrame of
                  Some frontImg \<Rightarrow>
                    (js_nc frontWidth0 (pixels (img_width frontImg)),
                     js_nc frontHeight0 (pixels (img_height frontImg)))
                | None \<Rightarrow> (frontWidth0, frontHeight0))
             else (frontWidth0, frontHeight0));
          (frontWidth2, frontHeight2) =
            (if frontWidth1 = Null \<or> frontHeight1 = Null then
               (case loadedImages (Content 0) of
                  Some contentImg \<Rightarrow>
                    (js_nc frontWidth1 (pixels (img_width contentImg)),
                     js_nc frontHeight1 (pixels (img_height contentImg)))
                | None \<Rightarrow> (frontWidth1, frontHeight1))
             else (frontWidth1, frontHeight1));
          frontWidth = js_nc frontWidth2 (Num (Fin 800));
          frontHeight = js_nc frontHeight2 (Num (Fin 600));
          backWidth = js_nc (side_width (back_side cfg)) frontWidth;
          backHeight = js_nc (side_height (back_side cfg)) frontHeight
      in \<lparr> front_dims = \<lparr> width = frontWidth, height = frontHeight \<rparr>,
           back_dims = \<lparr> width = backWidth, height = backHeight \<rparr>,
           realpic = \<lparr> width = frontWidth, height = frontHeight \<rparr> \<rparr>)"

section \<open>Loading the images\<close>

text \<open>
  \<open>RealPic._loadImages\<close>. The browser's image loader is a parameter: for the value
  assigned to \<open>img.src\<close> it gives the natural size of the image, or \<open>None\<close> when
  \<open>onerror\<close> fires. The load tasks write distinct keys, so their order does not matter.
\<close>

fun contentTasks :: "nat \<Rightarrow> jsval list \<Rightarrow> error + (image_key \<times> jsval) list" where
  "contentTasks index [] = Inr []"
| "contentTasks index (content # rest) =
     (if nullish content then Inl TypeError
      else bind (contentTasks (Suc index) rest) (\<lambda>ts.
        Inr (if opt_prop content ''type'' = Str ''image'' \<and> truthy (opt_prop content ''src'')
             then (Content index, opt_prop content ''src'') # ts else ts)))"

definition loadSingle ::
  "(jsval \<Rightarrow> (nat \<times> nat) option) \<Rightarrow> loaded_images \<Rightarrow> image_key \<times> jsval \<Rightarrow> loaded_images" where
  "loadSingle loader m task =
     (case loader (snd task) of
        Some (w, h) \<Rightarrow> m(fst task \<mapsto> \<lparr> img_width = w, img_height = h, img_url = snd task \<rparr>)
      | None \<Rightarrow> m)"

definition loadImages ::
  "(jsval \<Rightarrow> (nat \<times> nat) option) \<Rightarrow> config \<Rightarrow> jsval \<Rightarrow> error + loaded_images" where
  "loadImages loader cfg options =
     (let tasks0 =
            (if truthy (side_image (front_side cfg))
             then [(FrontFrame, side_image (front_side cfg))] else []) @
            (if truthy (side_image (back_side cfg))
             then [(BackFrame, side_image (back_side cfg))] else [])
      in bind (get_prop options ''contents'') (\<lambda>cs.
         case js_or cs (Arr []) of
           Arr contents \<Rightarrow>
             bind (contentTasks 0 contents) (\<lambda>ts.
               Inr (foldl (loadSingle loader) Map.empty (tasks0 @ ts)))
         | _ \<Rightarrow> Inl TypeError))"

section \<open>Card layout\<close>

text \<open>
  The part of \<open>RealPic._applyLayout\<close> that sizes the card: the container's width and
  height (from \<open>getBoundingClientRect\<close>) and the card's natural size give the scale
  and the scaled size written to the viewport element. The two quotients and the two
  products are rounded to double precision.
\<close>

record card_layout =
  scale :: jsnum
  scaledW :: jsnum
  scaledH :: jsnum

definition applyLayout :: "jsnum \<Rightarrow> jsnum \<Rightarrow> jsnum \<Rightarrow> jsnum \<Rightarrow> card_layout" where
  "applyLayout containerW containerH realpicW realpicH =
     (let sc = jmin (ddiv containerW realpicW) (ddiv containerH realpicH)
      in \<lparr> scale = sc, scaledW = dmul realpicW sc, scaledH = dmul realpicH sc \<rparr>)"

section \<open>The RealPic controller\<close>

text \<open>
  The fields of a \<open>RealPic\<close> instance that its public operations read and write. The
  DOM is reduced to the class list of the root element and the inline transform of the
  viewport element; both elements are created by the constructor and never removed from
  the instance. \<open>flipTimers\<close> counts the pending \<open>setTimeout\<close> callbacks of \<open>flip\<close>.
\<close>

record controller =
  options :: jsval
  isFlipped :: bool
  isAnimating :: bool
  isInitialized :: bool
  parsedConfig :: "config option"
  loadedImages :: loaded_images
  dimensions :: "dimensions option"
  rootClasses :: "string set"
  transform :: string
  flipTimers :: nat

text \<open>
  The constructor, for a container that is an element (\<open>Some\<close>) or missing (\<open>None\<close>).
  When options are passed it also starts \<open>setOptions\<close> without awaiting it; that call is
  a step of its own below, and its rejection does not reach the constructor's caller.
\<close>

definition fresh_controller :: controller where
  "fresh_controller =
     \<lparr> options = Null, isFlipped = False, isAnimating = False, isInitialized = False,
       parsedConfig = None, loadedImages = Map.empty, dimensions = None,
       rootClasses = {''realpic-root'', ''realpic-hidden''}, transform = [],
       flipTimers = 0 \<rparr>"


text \<open>\<open>flip\<close>, and the callback its 600 ms timer runs.\<close>

definition flip :: "controller \<Rightarrow> controller" where
  "flip st =
     (if isAnimating st then st
      else
        let flipped = \<not> isFlipped st in
        st \<lparr> isAnimating := True,
             isFlipped := flipped,
             transform := ''rotateX(0) rotateY(0) translateZ(0)'',
             rootClasses := (if flipped then insert ''realpic-flipped'' (rootClasses st)
                             else rootClasses st - {''realpic-flipped''}),
             flipTimers := Suc (flipTimers st) \<rparr>)"

definition flipTimeout :: "controller \<Rightarrow> controller" where
  "flipTimeout st = st \<lparr> isAnimating := False, flipTimers := flipTimers st - 1 \<rparr>"

text \<open>\<open>reset\<close>, \<open>show\<close>, \<open>hide\<close>, \<open>isVisible\<close>\<close>

definition reset :: "controller \<Rightarrow> controller" where
  "reset st = st \<lparr> isFlipped := False, rootClasses := rootClasses st - {''realpic-flipped''} \<rparr>"

definition show_op :: "controller \<Rightarrow> controller" where
  "show_op st = st \<lparr> rootClasses := rootClasses st - {''realpic-hidden''} \<rparr>"

definition hide :: "controller \<Rightarrow> controller" where
  "hide st = reset (st \<lparr> rootClasses := insert ''realpic-hidden'' (rootClasses st) \<rparr>)"

definition isVisible :: "controller \<Rightarrow> bool" where
  "isVisible st = (''realpic-hidden'' \<notin> rootClasses st)"

text \<open>
  The outcome of \<open>fetch(configPath)\<close> followed by \<open>response.json()\<close>: the fetch rejects,
  the response is not ok, the body is not JSON, or the body parses to a value.
\<close>

datatype fetch_result = FetchRejected | NotOk | BadJson | Json jsval

text \<open>
  A failed asynchronous step keeps the controller as the step left it, next to the
  exception. \<open>RealPic._loadConfig\<close>: \<open>themeBase.endsWith\<close> throws for a truthy theme path
  that is not a string; every failure inside the \<open>try\<close> block, an exception of
  \<open>ConfigParser.parse\<close> included, leads to the catch block, which parses \<open>{}\<close>.
\<close>

type_synonym 'a outcome = "(error \<times> controller) + 'a"

definition loadConfig :: "fetch_result \<Rightarrow> controller \<Rightarrow> controller outcome" where
  "loadConfig fr st =
     (let themeBase = opt_prop (options st) ''themePath'' in
      if \<not> truthy themeBase then Inl (Error ''themePath is required in options'', st)
      else
        (case themeBase of
           Str tb \<Rightarrow>
             (let attempt = (case fr of Json rawConfig \<Rightarrow> parse rawConfig tb
                                      | _ \<Rightarrow> Inl (Error ''Failed to load theme config''))
              in case attempt of
                   Inr (cfg, ws) \<Rightarrow> Inr (st \<lparr> parsedConfig := Some cfg \<rparr>)
                 | Inl e \<Rightarrow>
                     (case parse (Obj []) tb of
                        Inr (cfg, ws) \<Rightarrow> Inr (st \<lparr> parsedConfig := Some cfg \<rparr>)
                      | Inl e' \<Rightarrow> Inl (e', st)))
         | _ \<Rightarrow> Inl (TypeError, st)))"







section \<open>Notions used in the statements\<close>


text \<open>The side descriptor \<open>rawConfig.front || {}\<close> (or \<open>back\<close>) that \<open>parse\<close> normalizes.\<close>

definition side_descriptor :: "jsval \<Rightarrow> string \<Rightarrow> jsval" where
  "side_descriptor rawConfig k = js_or (opt_prop rawConfig k) (Obj [])"

text \<open>
  The fallback chain of one axis in the specification's words: the explicit size of the
  config, else the size of the frame image, else the size of a content image, else the
  fixed default.
\<close>

definition spec_chain ::
  "jsval \<Rightarrow> loaded_image option \<Rightarrow> loaded_image option \<Rightarrow> (loaded_image \<Rightarrow> nat) \<Rightarrow> real \<Rightarrow> jsval" where
  "spec_chain explicit frame content axis fixed =
     (if explicit \<noteq> Null then explicit
      else case frame of
             Some img \<Rightarrow> pixels (axis img)
           | None \<Rightarrow> (case content of
                        Some img \<Rightarrow> pixels (axis img)
                      | None \<Rightarrow> Num (Fin fixed)))"

text \<open>
  The specification's third step names the first image-type content: the first entry of
  \<open>contents\<close> whose \<open>type\<close> is \<open>image\<close>, looked up in \<open>loadedImages\<close> under its index.
\<close>

fun spec_first_image_index :: "nat \<Rightarrow> jsval list \<Rightarrow> nat option" where
  "spec_first_image_index index [] = None"
| "spec_first_image_index index (content # rest) =
     (if opt_prop content ''type'' = Str ''image'' then Some index
      else spec_first_image_index (Suc index) rest)"

definition spec_first_image_content :: "jsval list \<Rightarrow> loaded_images \<Rightarrow> loaded_image option" where
  "spec_first_image_content contents imgs =
     (case spec_first_image_index 0 contents of
        None \<Rightarrow> None
      | Some i \<Rightarrow> imgs (Content i))"

text \<open>
  The descriptors on which \<open>parse\<close> does not throw: the descriptor is not \<open>null\<close> or
  \<open>undefined\<close>, no entry of a \<open>contentArea\<close> array is, and, when there is a base
  path, the image of each side is falsy or a string.
\<close>

definition image_ok :: "jsval \<Rightarrow> bool" where
  "image_ok side =
     (case opt_prop side ''image'' of Str p \<Rightarrow> True | v \<Rightarrow> \<not> truthy v)"

definition entries_ok :: "jsval \<Rightarrow> bool" where
  "entries_ok areas = (case areas of Arr as \<Rightarrow> list_all (\<lambda>a. \<not> nullish a) as | _ \<Rightarrow> True)"

definition well_formed :: "jsval \<Rightarrow> string \<Rightarrow> bool" where
  "well_formed rawConfig themeBase =
     (\<not> nullish rawConfig \<and>
      (themeBase = [] \<or>
         image_ok (side_descriptor rawConfig ''front'') \<and>
         image_ok (side_descriptor rawConfig ''back'')) \<and>
      entries_ok (opt_prop rawConfig ''contentArea''))"

text \<open>A side whose four fields hold a value or an explicit \<open>null\<close>, the background a non-empty one.\<close>

definition side_defaulted :: "side_config \<Rightarrow> bool" where
  "side_defaulted sc =
     (side_image sc \<noteq> Undefined \<and> truthy (side_background sc) \<and>
      side_width sc \<noteq> Undefined \<and> side_height sc \<noteq> Undefined)"

text \<open>A content area with every field resolved.\<close>

definition area_resolved :: "area_config \<Rightarrow> bool" where
  "area_resolved a =
     (\<not> nullish (area_id a) \<and> truthy (area_side a) \<and> \<not> nullish (area_x a) \<and>
      \<not> nullish (area_y a) \<and> \<not> nullish (area_width a) \<and> \<not> nullish (area_height a) \<and>
      truthy (area_position a) \<and> truthy (area_fit a) \<and> truthy (area_style a))"



text \<open>The config that normalizing \<open>{}\<close> yields.\<close>

definition default_side :: side_config where
  "default_side =
     \<lparr> side_image = Null, side_background = Str DEFAULT_BACKGROUND,
       side_width = Null, side_height = Null \<rparr>"

definition default_config :: config where
  "default_config =
     \<lparr> front_side = default_side, back_side = default_side, contentArea = default_areas \<rparr>"

declare bit_length.simps [simp del]

section \<open>Suffixes and trimming\<close>











section \<open>Dimension values are read five ways\<close>



section \<open>The content areas of an empty descriptor\<close>

text \<open>
  C2. For a missing or empty \<open>contentArea\<close> list the specification asks for two areas
  with resolved geometry (area 0 on the front at \<open>x = 0, y = 0, width = 1, height = 1\<close>,
  area 1 on the back at \<open>0.1, 0.1, 0.8, 0.8\<close>, both \<open>fit = contain\<close> and
  \<open>position = center\<close>). The source returns two areas that have \<open>area\<close> and \<open>side\<close>
  only: every geometry field, \<open>fit\<close> and \<open>position\<close> are \<open>undefined\<close>. Both sides of the
  normalized \<open>{}\<close> do have the default background and no image.
\<close>

theorem default_areas_lack_geometry:
  "parseContentAreas Undefined = Inr default_areas \<and>
   parseContentAreas (Arr []) = Inr default_areas \<and>
   map area_id default_areas = [Num (Fin 0), Num (Fin 1)] \<and>
   map area_side default_areas = [Str ''front'', Str ''back''] \<and>
   map area_x default_areas = [Undefined, Undefined] \<and>
   map area_y default_areas = [Undefined, Undefined] \<and>
   map area_width default_areas = [Undefined, Undefined] \<and>
   map area_height default_areas = [Undefined, Undefined] \<and>
   map area_fit default_areas = [Undefined, Undefined] \<and>
   map area_position default_areas = [Undefined, Undefined] \<and>
   parse (Obj []) ''/themes/x/'' =
     Inr (\<lparr> front_side = \<lparr> side_image = Null, side_background = Str ''#eeeeee'',
                           side_width = Null, side_height = Null \<rparr>,
            back_side = \<lparr> side_image = Null, side_background = Str ''#eeeeee'',
                          side_width = Null, side_height = Null \<rparr>,
            contentArea = default_areas \<rparr>, [])"
  by (simp add: parseContentAreas_def default_areas_def parse_def bind_def get_prop_def
      nullish_def js_or_def js_nc_def parseSideConfig_def DEFAULT_BACKGROUND_def
      resolveDependencies_def resolveImagePaths_def resolveSideImage_def validate_def
      side_at_def endsWith_def Let_def)

section \<open>The steps of normalization\<close>

lemma side_descriptor_not_nullish: "\<not> nullish (side_descriptor raw k)"
  by (cases "opt_prop raw k") (auto simp: side_descriptor_def js_or_def nullish_def)

lemma parseSideConfig_value:
  "\<not> nullish sc \<Longrightarrow>
   parseSideConfig sc =
     Inr \<lparr> side_image = js_or (opt_prop sc ''image'') Null,
           side_background = js_or (opt_prop sc ''background'') (Str DEFAULT_BACKGROUND),
           side_width = js_nc (opt_prop sc ''width'') Null,
           side_height = js_nc (opt_prop sc ''height'') Null \<rparr>"
  by (simp add: parseSideConfig_def get_prop_def bind_def js_or_def Let_def)

lemma bind_Inr_iff: "bind m f = Inr y \<longleftrightarrow> (\<exists>a. m = Inr a \<and> f a = Inr y)"
  by (cases m) (simp_all add: bind_def)

lemma parse_steps:
  assumes "parse raw base = Inr (cfg, ws)"
  shows "\<exists>f b ca. \<not> nullish raw \<and>
           parseSideConfig (side_descriptor raw ''front'') = Inr f \<and>
           parseSideConfig (side_descriptor raw ''back'') = Inr b \<and>
           parseContentAreas (js_or (opt_prop raw ''contentArea'') (Arr [])) = Inr ca \<and>
           resolveImagePaths (resolveDependencies
             \<lparr> front_side = f, back_side = b, contentArea = ca \<rparr>) base = Inr cfg \<and>
           ws = validate cfg"
  using assms
  by (auto simp: parse_def bind_Inr_iff get_prop_def side_descriptor_def split: if_splits)

lemma resolveSideImage_fields:
  assumes "resolveSideImage sc base = Inr sc'"
  shows "side_width sc' = side_width sc \<and> side_height sc' = side_height sc \<and>
         side_background sc' = side_background sc \<and>
         (side_image sc \<noteq> Undefined \<longrightarrow> side_image sc' \<noteq> Undefined)"
  using assms
  by (auto simp: resolveSideImage_def bind_Inr_iff resolvePath_def split: if_splits jsval.splits)

lemma resolveImagePaths_fields:
  assumes "resolveImagePaths c base = Inr cfg"
  shows "side_width (front_side cfg) = side_width (front_side c) \<and>
         side_height (front_side cfg) = side_height (front_side c) \<and>
         side_background (front_side cfg) = side_background (front_side c) \<and>
         (side_image (front_side c) \<noteq> Undefined \<longrightarrow> side_image (front_side cfg) \<noteq> Undefined) \<and>
         side_width (back_side cfg) = side_width (back_side c) \<and>
         side_height (back_side cfg) = side_height (back_side c) \<and>
         side_background (back_side cfg) = side_background (back_side c) \<and>
         (side_image (back_side c) \<noteq> Undefined \<longrightarrow> side_image (back_side cfg) \<noteq> Undefined) \<and>
         contentArea cfg = contentArea c"
proof (cases "base = []")
  case True
  with assms show ?thesis by (simp add: resolveImagePaths_def)
next
  case False
  with assms obtain f b bs where
    f: "resolveSideImage (front_side c) bs = Inr f" and
    b: "resolveSideImage (back_side c) bs = Inr b" and
    cfg: "cfg = c \<lparr> front_side := f, back_side := b \<rparr>"
    by (auto simp: resolveImagePaths_def bind_Inr_iff Let_def)
  from resolveSideImage_fields [OF f] resolveSideImage_fields [OF b] cfg
  show ?thesis by simp
qed

lemma resolveDependencies_fields:
  "front_side (resolveDependencies c) = front_side c \<and>
   contentArea (resolveDependencies c) = contentArea c \<and>
   side_image (back_side (resolveDependencies c)) = side_image (back_side c) \<and>
   side_background (back_side (resolveDependencies c)) = side_background (back_side c) \<and>
   side_width (back_side (resolveDependencies c)) =
     (if side_width (back_side c) = Null then side_width (front_side c)
      else side_width (back_side c)) \<and>
   side_height (back_side (resolveDependencies c)) =
     (if side_height (back_side c) = Null then side_height (front_side c)
      else side_height (back_side c))"
  by (simp add: resolveDependencies_def Let_def)

lemma js_nc_Null_defined: "js_nc v Null \<noteq> Undefined"
  by (simp add: js_nc_def nullish_def)

lemma js_nc_Null_eq: "js_nc v Null = Null \<longleftrightarrow> nullish v"
  by (auto simp: js_nc_def nullish_def)

lemma js_or_Null_defined: "js_or v Null \<noteq> Undefined"
  by (cases v) (simp_all add: js_or_def)

lemma parse_fields:
  assumes "parse raw base = Inr (cfg, ws)"
  shows "\<exists>f b. parseSideConfig (side_descriptor raw ''front'') = Inr f \<and>
           parseSideConfig (side_descriptor raw ''back'') = Inr b \<and>
           side_width (front_side cfg) = side_width f \<and>
           side_height (front_side cfg) = side_height f \<and>
           side_background (front_side cfg) = side_background f \<and>
           (side_image f \<noteq> Undefined \<longrightarrow> side_image (front_side cfg) \<noteq> Undefined) \<and>
           side_width (back_side cfg) =
             (if side_width b = Null then side_width f else side_width b) \<and>
           side_height (back_side cfg) =
             (if side_height b = Null then side_height f else side_height b) \<and>
           side_background (back_side cfg) = side_background b \<and>
           (side_image b \<noteq> Undefined \<longrightarrow> side_image (back_side cfg) \<noteq> Undefined)"
proof -
  from parse_steps [OF assms] obtain f b ca where
    f: "parseSideConfig (side_descriptor raw ''front'') = Inr f" and
    b: "parseSideConfig (side_descriptor raw ''back'') = Inr b" and
    r: "resolveImagePaths (resolveDependencies
          \<lparr> front_side = f, back_side = b, contentArea = ca \<rparr>) base = Inr cfg"
    by blast
  have "side_width (front_side cfg) = side_width f"
    "side_height (front_side cfg) = side_height f"
    "side_background (front_side cfg) = side_background f"
    "side_image f \<noteq> Undefined \<longrightarrow> side_image (front_side cfg) \<noteq> Undefined"
    "side_width (back_side cfg) = (if side_width b = Null then side_width f else side_width b)"
    "side_height (back_side cfg) = (if side_height b = Null then side_height f else side_height b)"
    "side_background (back_side cfg) = side_background b"
    "side_image b \<noteq> Undefined \<longrightarrow> side_image (back_side cfg) \<noteq> Undefined"
    using resolveImagePaths_fields [OF r]
    by (simp_all add: resolveDependencies_fields)
  with f b show ?thesis by blast
qed

lemma parse_sides:
  assumes "parse raw base = Inr (cfg, ws)"
  shows "side_width (front_side cfg) = js_nc (opt_prop (side_descriptor raw ''front'') ''width'') Null"
    and "side_height (front_side cfg) = js_nc (opt_prop (side_descriptor raw ''front'') ''height'') Null"
    and "side_width (back_side cfg) =
           (if nullish (opt_prop (side_descriptor raw ''back'') ''width'')
            then side_width (front_side cfg)
            else opt_prop (side_descriptor raw ''back'') ''width'')"
    and "side_height (back_side cfg) =
           (if nullish (opt_prop (side_descriptor raw ''back'') ''height'')
            then side_height (front_side cfg)
            else opt_prop (side_descriptor raw ''back'') ''height'')"
    and "side_background (front_side cfg) =
           js_or (opt_prop (side_descriptor raw ''front'') ''background'') (Str DEFAULT_BACKGROUND)"
    and "side_background (back_side cfg) =
           js_or (opt_prop (side_descriptor raw ''back'') ''background'') (Str DEFAULT_BACKGROUND)"
    and "side_image (front_side cfg) \<noteq> Undefined"
    and "side_image (back_side cfg) \<noteq> Undefined"
proof -
  from parse_fields [OF assms] obtain f b where
    f: "parseSideConfig (side_descriptor raw ''front'') = Inr f" and
    b: "parseSideConfig (side_descriptor raw ''back'') = Inr b" and
    fw: "side_width (front_side cfg) = side_width f" and
    fh: "side_height (front_side cfg) = side_height f" and
    fb: "side_background (front_side cfg) = side_background f" and
    fi: "side_image f \<noteq> Undefined \<longrightarrow> side_image (front_side cfg) \<noteq> Undefined" and
    bw: "side_width (back_side cfg) = (if side_width b = Null then side_width f else side_width b)" and
    bh: "side_height (back_side cfg) = (if side_height b = Null then side_height f else side_height b)" and
    bb: "side_background (back_side cfg) = side_background b" and
    bi: "side_image b \<noteq> Undefined \<longrightarrow> side_image (back_side cfg) \<noteq> Undefined"
    by blast
  have fv: "f = \<lparr> side_image = js_or (opt_prop (side_descriptor raw ''front'') ''image'') Null,
           side_background = js_or (opt_prop (side_descriptor raw ''front'') ''background'') (Str DEFAULT_BACKGROUND),
           side_width = js_nc (opt_prop (side_descriptor raw ''front'') ''width'') Null,
           side_height = js_nc (opt_prop (side_descriptor raw ''front'') ''height'') Null \<rparr>"
    using f by (simp add: parseSideConfig_value side_descriptor_not_nullish)
  have bv: "b = \<lparr> side_image = js_or (opt_prop (side_descriptor raw ''back'') ''image'') Null,
           side_background = js_or (opt_prop (side_descriptor raw ''back'') ''background'') (Str DEFAULT_BACKGROUND),
           side_width = js_nc (opt_prop (side_descriptor raw ''back'') ''width'') Null,
           side_height = js_nc (opt_prop (side_descriptor raw ''back'') ''height'') Null \<rparr>"
    using b by (simp add: parseSideConfig_value side_descriptor_not_nullish)
  show "side_width (front_side cfg) = js_nc (opt_prop (side_descriptor raw ''front'') ''width'') Null"
    by (simp add: fw fv)
  show "side_height (front_side cfg) = js_nc (opt_prop (side_descriptor raw ''front'') ''height'') Null"
    by (simp add: fh fv)
  show "side_width (back_side cfg) =
           (if nullish (opt_prop (side_descriptor raw ''back'') ''width'')
            then side_width (front_side cfg)
            else opt_prop (side_descriptor raw ''back'') ''width'')"
    by (simp add: bw fw bv js_nc_Null_eq) (simp add: js_nc_def)
  show "side_height (back_side cfg) =
           (if nullish (opt_prop (side_descriptor raw ''back'') ''height'')
            then side_height (front_side cfg)
            else opt_prop (side_descriptor raw ''back'') ''height'')"
    by (simp add: bh fh bv js_nc_Null_eq) (simp add: js_nc_def)
  show "side_background (front_side cfg) =
           js_or (opt_prop (side_descriptor raw ''front'') ''background'') (Str DEFAULT_BACKGROUND)"
    by (simp add: fb fv)
  show "side_background (back_side cfg) =
           js_or (opt_prop (side_descriptor raw ''back'') ''background'') (Str DEFAULT_BACKGROUND)"
    by (simp add: bb bv)
  have "side_image f \<noteq> Undefined" by (simp add: fv js_or_Null_defined)
  with fi show "side_image (front_side cfg) \<noteq> Undefined" by simp
  have "side_image b \<noteq> Undefined" by (simp add: bv js_or_Null_defined)
  with bi show "side_image (back_side cfg) \<noteq> Undefined" by simp
qed

lemma parse_inheritance_any_base:
  "parse (Obj [(''front'', Obj [(''width'', Num (Fin 800)), (''height'', Num (Fin 600))]),
               (''back'', Obj [])]) base =
     Inr (\<lparr> front_side = \<lparr> side_image = Null, side_background = Str DEFAULT_BACKGROUND,
                           side_width = Num (Fin 800), side_height = Num (Fin 600) \<rparr>,
            back_side = \<lparr> side_image = Null, side_background = Str DEFAULT_BACKGROUND,
                          side_width = Num (Fin 800), side_height = Num (Fin 600) \<rparr>,
            contentArea = default_areas \<rparr>, [])"
  by (simp add: parseContentAreas_def default_areas_def parse_def bind_def get_prop_def
      nullish_def js_or_def js_nc_def parseSideConfig_def
      resolveDependencies_def resolveImagePaths_def resolveSideImage_def validate_def
      side_at_def Let_def)

lemma parse_empty_any_base: "parse (Obj []) base = Inr (default_config, [])"
  by (simp add: parseContentAreas_def default_areas_def parse_def bind_def get_prop_def
      nullish_def js_or_def js_nc_def parseSideConfig_def default_config_def default_side_def
      resolveDependencies_def resolveImagePaths_def resolveSideImage_def validate_def
      side_at_def Let_def)

section \<open>The fallback chain of the card size\<close>

lemma getDimensions_front_width:
  assumes "side_width (front_side cfg) \<noteq> Undefined" "side_height (front_side cfg) \<noteq> Undefined"
  shows "width (front_dims (getDimensions cfg imgs)) =
           spec_chain (side_width (front_side cfg)) (imgs FrontFrame) (imgs (Content 0)) img_width 800"
  using assms
  by (auto simp: getDimensions_def spec_chain_def Let_def js_nc_def nullish_def pixels_def
      split: option.splits)

lemma getDimensions_front_height:
  assumes "side_width (front_side cfg) \<noteq> Undefined" "side_height (front_side cfg) \<noteq> Undefined"
  shows "height (front_dims (getDimensions cfg imgs)) =
           spec_chain (side_height (front_side cfg)) (imgs FrontFrame) (imgs (Content 0)) img_height 600"
  using assms
  by (auto simp: getDimensions_def spec_chain_def Let_def js_nc_def nullish_def pixels_def
      split: option.splits)

lemma getDimensions_realpic: "realpic (getDimensions cfg imgs) = front_dims (getDimensions cfg imgs)"
  by (simp add: getDimensions_def Let_def split: prod.splits)

lemma getDimensions_back:
  "width (back_dims (getDimensions cfg imgs)) =
     js_nc (side_width (back_side cfg)) (width (front_dims (getDimensions cfg imgs))) \<and>
   height (back_dims (getDimensions cfg imgs)) =
     js_nc (side_height (back_side cfg)) (height (front_dims (getDimensions cfg imgs)))"
  by (simp add: getDimensions_def Let_def split: prod.splits)

lemma getDimensions_final_fallback:
  assumes "side_width (front_side cfg) = Null" "side_height (front_side cfg) = Null"
    "side_width (back_side cfg) = Null" "side_height (back_side cfg) = Null"
  shows "getDimensions cfg Map.empty =
           \<lparr> front_dims = \<lparr> width = Num (Fin 800), height = Num (Fin 600) \<rparr>,
             back_dims = \<lparr> width = Num (Fin 800), height = Num (Fin 600) \<rparr>,
             realpic = \<lparr> width = Num (Fin 800), height = Num (Fin 600) \<rparr> \<rparr>"
  using assms by (simp add: getDimensions_def Let_def js_nc_def nullish_def)

text \<open>
  C3, as amended. For every normalized config (a result of \<open>parse\<close>) and every
  \<open>loadedImages\<close> map, \<open>getDimensions\<close> resolves the front size per axis by the chain:
  the explicit config size, else the natural size of the front frame image, else the
  natural size of the loaded content image at index 0 of \<open>contents\<close> (key \<open>content_0\<close>),
  else 800 (width) or 600 (height). The card size is the front size, and with no explicit
  size and no loaded image front, back and card are 800 by 600.
\<close>

theorem getDimensions_fallback_chain:
  assumes "parse raw base = Inr (cfg, ws)"
  shows "width (front_dims (getDimensions cfg imgs)) =
           spec_chain (side_width (front_side cfg)) (imgs FrontFrame) (imgs (Content 0)) img_width 800 \<and>
         height (front_dims (getDimensions cfg imgs)) =
           spec_chain (side_height (front_side cfg)) (imgs FrontFrame) (imgs (Content 0)) img_height 600 \<and>
         realpic (getDimensions cfg imgs) = front_dims (getDimensions cfg imgs) \<and>
         (side_width (front_side cfg) = Null \<and> side_height (front_side cfg) = Null \<and>
          side_width (back_side cfg) = Null \<and> side_height (back_side cfg) = Null \<longrightarrow>
            getDimensions cfg Map.empty =
              \<lparr> front_dims = \<lparr> width = Num (Fin 800), height = Num (Fin 600) \<rparr>,
                back_dims = \<lparr> width = Num (Fin 800), height = Num (Fin 600) \<rparr>,
                realpic = \<lparr> width = Num (Fin 800), height = Num (Fin 600) \<rparr> \<rparr>)"
proof -
  have w: "side_width (front_side cfg) \<noteq> Undefined"
    using parse_sides(1) [OF assms] by (simp add: js_nc_Null_defined)
  have h: "side_height (front_side cfg) \<noteq> Undefined"
    using parse_sides(2) [OF assms] by (simp add: js_nc_Null_defined)
  show ?thesis
    using getDimensions_front_width [OF w h] getDimensions_front_height [OF w h]
      getDimensions_realpic getDimensions_final_fallback by blast
qed

text \<open>The chain at the normalized \<open>{}\<close>, with a loaded front frame and with nothing loaded.\<close>

theorem getDimensions_fallback_chain_witness:
  "parse (Obj []) ''/themes/x/'' = Inr (default_config, []) \<and>
   width (front_dims (getDimensions default_config
     [FrontFrame \<mapsto> \<lparr> img_width = 1080, img_height = 720, img_url = Str ''/themes/x/f.png'' \<rparr>])) =
     Num (Fin 1080) \<and>
   height (front_dims (getDimensions default_config
     [FrontFrame \<mapsto> \<lparr> img_width = 1080, img_height = 720, img_url = Str ''/themes/x/f.png'' \<rparr>])) =
     Num (Fin 720) \<and>
   getDimensions default_config Map.empty =
     \<lparr> front_dims = \<lparr> width = Num (Fin 800), height = Num (Fin 600) \<rparr>,
       back_dims = \<lparr> width = Num (Fin 800), height = Num (Fin 600) \<rparr>,
       realpic = \<lparr> width = Num (Fin 800), height = Num (Fin 600) \<rparr> \<rparr>"
proof -
  have n: "side_width (front_side default_config) = Null \<and>
           side_height (front_side default_config) = Null \<and>
           side_width (back_side default_config) = Null \<and>
           side_height (back_side default_config) = Null"
    by (simp add: default_config_def default_side_def)
  have c: "spec_chain Null
             (Some \<lparr> img_width = 1080, img_height = 720, img_url = Str ''/themes/x/f.png'' \<rparr>)
             None img_width 800 = Num (Fin 1080) \<and>
           spec_chain Null
             (Some \<lparr> img_width = 1080, img_height = 720, img_url = Str ''/themes/x/f.png'' \<rparr>)
             None img_height 600 = Num (Fin 720)"
    by (simp add: spec_chain_def pixels_def)
  show ?thesis
    using getDimensions_fallback_chain [OF parse_empty_any_base,
        of "[FrontFrame \<mapsto> \<lparr> img_width = 1080, img_height = 720, img_url = Str ''/themes/x/f.png'' \<rparr>]"]
      parse_empty_any_base n c
    by simp
qed

text \<open>
  C3 as stated names the first image-type content. For \<open>contents\<close> whose first entry is
  a text and whose second entry is an image of 100 by 50 that loads, \<open>_loadImages\<close> stores
  the image under \<open>content_1\<close>; the chain of the claim gives the width 100, the source
  gives 800.
\<close>

theorem getDimensions_first_image_counterexample:
  "loadImages [Str ''a.jpg'' \<mapsto> (100, 50)] default_config
     (Obj [(''themePath'', Str ''/themes/x/''),
           (''contents'', Arr [Obj [(''area'', Num (Fin 1)), (''type'', Str ''text''), (''content'', Str ''hi'')],
                               Obj [(''area'', Num (Fin 0)), (''type'', Str ''image''), (''src'', Str ''a.jpg'')]])]) =
     Inr [Content 1 \<mapsto> \<lparr> img_width = 100, img_height = 50, img_url = Str ''a.jpg'' \<rparr>] \<and>
   spec_first_image_content
     [Obj [(''area'', Num (Fin 1)), (''type'', Str ''text''), (''content'', Str ''hi'')],
      Obj [(''area'', Num (Fin 0)), (''type'', Str ''image''), (''src'', Str ''a.jpg'')]]
     [Content 1 \<mapsto> \<lparr> img_width = 100, img_height = 50, img_url = Str ''a.jpg'' \<rparr>] =
     Some \<lparr> img_width = 100, img_height = 50, img_url = Str ''a.jpg'' \<rparr> \<and>
   spec_chain Null None
     (Some \<lparr> img_width = 100, img_height = 50, img_url = Str ''a.jpg'' \<rparr>) img_width 800 = Num (Fin 100) \<and>
   width (front_dims (getDimensions default_config
     [Content 1 \<mapsto> \<lparr> img_width = 100, img_height = 50, img_url = Str ''a.jpg'' \<rparr>])) = Num (Fin 800) \<and>
   width (front_dims (getDimensions default_config
     [Content 1 \<mapsto> \<lparr> img_width = 100, img_height = 50, img_url = Str ''a.jpg'' \<rparr>])) \<noteq>
   spec_chain (side_width (front_side default_config)) None
     (spec_first_image_content
        [Obj [(''area'', Num (Fin 1)), (''type'', Str ''text''), (''content'', Str ''hi'')],
         Obj [(''area'', Num (Fin 0)), (''type'', Str ''image''), (''src'', Str ''a.jpg'')]]
        [Content 1 \<mapsto> \<lparr> img_width = 100, img_height = 50, img_url = Str ''a.jpg'' \<rparr>])
     img_width 800"
  apply (intro conjI)
  subgoal by (simp add: loadImages_def default_config_def default_side_def get_prop_def nullish_def bind_def js_or_def loadSingle_def)
  subgoal by (simp add: spec_first_image_content_def)
  subgoal by (simp add: spec_chain_def pixels_def)
  subgoal by (simp add: getDimensions_def default_config_def default_side_def Let_def js_nc_def nullish_def)
  subgoal by (simp add: getDimensions_def default_config_def default_side_def Let_def js_nc_def nullish_def
       spec_first_image_content_def spec_chain_def pixels_def)
  done

section \<open>Containment of the card in the viewport\<close>

lemma pow2_powi: "pow2 e = 2 powi e"
  by (simp add: pow2_def power_int_def power_one_over)

lemma pow2_pos: "0 < pow2 e"
  by (simp add: pow2_powi)

lemma pow2_add: "pow2 (a + b) = pow2 a * pow2 b"
  by (simp add: pow2_powi power_int_add)

lemma pow2_mono: "a \<le> b \<Longrightarrow> pow2 a \<le> pow2 b"
  by (simp add: pow2_powi power_int_increasing)

lemma pow2_strict_mono: "a < b \<Longrightarrow> pow2 a < pow2 b"
  by (simp add: pow2_powi power_int_strict_increasing)

lemma pow2_less_iff: "pow2 a < pow2 b \<longleftrightarrow> a < b"
  by (metis pow2_mono pow2_strict_mono not_less)

lemma pow2_nat: "pow2 (int n) = 2 ^ n"
  by (simp add: pow2_def)

lemma bit_length_bounds: "0 < n \<Longrightarrow> 2 ^ (bit_length n - 1) \<le> n \<and> n < 2 ^ bit_length n"
proof (induction n rule: bit_length.induct)
  case (1 n)
  show ?case
  proof (cases "n div 2 = 0")
    case True
    with "1.prems" have "n = 1" by (simp add: div_eq_0_iff)
    then show ?thesis by (simp add: bit_length.simps)
  next
    case False
    with "1.IH" "1.prems" have ih: "2 ^ (bit_length (n div 2) - 1) \<le> n div 2"
      "n div 2 < 2 ^ bit_length (n div 2)" by simp_all
    have pos: "0 < bit_length (n div 2)" using False by (simp add: bit_length.simps)
    have bl: "bit_length n = Suc (bit_length (n div 2))" using "1.prems" by (simp add: bit_length.simps)
    have "2 ^ bit_length (n div 2) = (2::nat) * 2 ^ (bit_length (n div 2) - 1)"
      using pos by (cases "bit_length (n div 2)") simp_all
    with ih(1) have a: "2 ^ bit_length (n div 2) \<le> n" by simp
    from ih(2) have b: "n < 2 * 2 ^ bit_length (n div 2)" by arith
    from a b bl show ?thesis by simp
  qed
qed

lemma pow2_neg_nat: "pow2 (- int n) = 1 / 2 ^ n"
  by (simp add: pow2_powi power_int_minus inverse_eq_divide)

lemma exponent2_bounds:
  assumes "0 < a"
  shows "pow2 (exponent2 a) \<le> a \<and> a < pow2 (exponent2 a + 1)"
proof (cases "1 \<le> a")
  case True
  define n where "n = nat \<lfloor>a\<rfloor>"
  have fl: "0 < \<lfloor>a\<rfloor>" using True by simp
  have fl0: "0 \<le> \<lfloor>a\<rfloor>" using fl by linarith
  have rn: "real n = of_int \<lfloor>a\<rfloor>" unfolding n_def using fl0 by (rule of_nat_nat)
  have n: "0 < n" "real n \<le> a" "a < real n + 1"
  proof -
    show "0 < n" unfolding n_def using fl by (simp only: zero_less_nat_eq)
    show "real n \<le> a" unfolding rn by (rule of_int_floor_le)
    show "a < real n + 1" unfolding rn by linarith
  qed
  from bit_length_bounds [OF n(1)] have b: "2 ^ (bit_length n - 1) \<le> n" "n < 2 ^ bit_length n"
    by simp_all
  have pos: "0 < bit_length n" using n(1) by (simp add: bit_length.simps)
  have e: "exponent2 a = int (bit_length n - 1)" "exponent2 a + 1 = int (bit_length n)"
    using True pos by (simp_all add: exponent2_def n_def)
  have "(2::real) ^ (bit_length n - 1) \<le> real n"
    using b(1) by (metis of_nat_le_iff of_nat_numeral of_nat_power)
  moreover have "real n + 1 \<le> 2 ^ bit_length n"
  proof -
    from b(2) have "n + 1 \<le> 2 ^ bit_length n" by simp
    then have "real (n + 1) \<le> real (2 ^ bit_length n)" by (rule of_nat_mono)
    then show ?thesis by simp
  qed
  moreover have "pow2 (exponent2 a) = 2 ^ (bit_length n - 1)" unfolding e(1) by (rule pow2_nat)
  moreover have "pow2 (exponent2 a + 1) = 2 ^ bit_length n" unfolding e(2) by (rule pow2_nat)
  ultimately show ?thesis using n by linarith
next
  case False
  then have a1: "a < 1" by simp
  define n where "n = nat \<lfloor>1 / a\<rfloor>"
  have ia: "1 < 1 / a" using assms a1 by simp
  have fl: "0 < \<lfloor>1 / a\<rfloor>" using ia by simp
  have fl0: "0 \<le> \<lfloor>1 / a\<rfloor>" using fl by linarith
  have rn: "real n = of_int \<lfloor>1 / a\<rfloor>" unfolding n_def using fl0 by (rule of_nat_nat)
  have n: "0 < n" "real n \<le> 1 / a" "1 / a < real n + 1"
  proof -
    show "0 < n" unfolding n_def using fl by (simp only: zero_less_nat_eq)
    show "real n \<le> 1 / a" unfolding rn by (rule of_int_floor_le)
    show "1 / a < real n + 1" unfolding rn by linarith
  qed
  from bit_length_bounds [OF n(1)] have b: "2 ^ (bit_length n - 1) \<le> n" "n < 2 ^ bit_length n"
    by simp_all
  have pos: "0 < bit_length n" using n(1) by (simp add: bit_length.simps)
  define k where "k = bit_length n - 1"
  have bl: "bit_length n = Suc k" using pos by (simp add: k_def)
  have kk: "int (bit_length (nat \<lfloor>1 / a\<rfloor>)) - 1 = int k"
    using pos by (simp add: k_def n_def)
  have lo: "(2::real) ^ k \<le> real n"
    using b(1) unfolding k_def by (metis of_nat_le_iff of_nat_numeral of_nat_power)
  have hi: "real n + 1 \<le> 2 ^ Suc k"
  proof -
    from b(2) have "n + 1 \<le> 2 ^ Suc k" by (simp add: bl)
    then have "real (n + 1) \<le> real (2 ^ Suc k)" by (rule of_nat_mono)
    then show ?thesis by simp
  qed
  have up: "a \<le> 1 / 2 ^ k"
  proof -
    have "2 ^ k \<le> 1 / a" using lo n(2) by linarith
    then have "a * 2 ^ k \<le> 1" using assms by (simp add: field_simps)
    then show ?thesis by (simp add: field_simps)
  qed
  have dn: "1 / 2 ^ Suc k < a"
  proof -
    have "1 / a < 2 ^ Suc k" using hi n(3) by linarith
    then have "1 < a * 2 ^ Suc k" using assms by (simp add: field_simps)
    then show ?thesis by (simp add: field_simps)
  qed
  show ?thesis
  proof (cases "a * pow2 (int k) = 1")
    case True
    then have eq: "a = 1 / 2 ^ k" by (simp add: pow2_nat field_simps)
    have e: "exponent2 a = - int k" using False True kk by (simp add: exponent2_def Let_def)
    have p: "pow2 (exponent2 a) = 1 / 2 ^ k" unfolding e by (rule pow2_neg_nat)
    have "pow2 (- int k) < pow2 (- int k + 1)" by (rule pow2_strict_mono) simp
    then have "a < pow2 (- int k + 1)" unfolding pow2_neg_nat [of k] using eq by linarith
    then have "a < pow2 (exponent2 a + 1)" unfolding e .
    moreover have "pow2 (exponent2 a) \<le> a" unfolding p using eq by linarith
    ultimately show ?thesis by blast
  next
    case ne: False
    then have neq: "a \<noteq> 1 / 2 ^ k" by (simp add: pow2_nat field_simps)
    have e: "exponent2 a = - int (Suc k)" using False ne kk by (simp add: exponent2_def Let_def)
    have e1: "exponent2 a + 1 = - int k" using e by simp
    show ?thesis using up dn neq
      unfolding e1 unfolding e pow2_neg_nat by simp
  qed
qed

lemma exponent2_unique:
  assumes "0 < a" "pow2 e \<le> a" "a < pow2 (e + 1)"
  shows "exponent2 a = e"
proof -
  from exponent2_bounds [OF assms(1)] have b: "pow2 (exponent2 a) \<le> a" "a < pow2 (exponent2 a + 1)"
    by simp_all
  have "pow2 e < pow2 (exponent2 a + 1)" using assms(2) b(2) by simp
  then have 1: "e < exponent2 a + 1" by (simp add: pow2_less_iff)
  have "pow2 (exponent2 a) < pow2 (e + 1)" using assms(3) b(1) by simp
  then have 2: "exponent2 a < e + 1" by (simp add: pow2_less_iff)
  from 1 2 show ?thesis by simp
qed

lemma round_half_even_error: "\<bar>real_of_int (round_half_even y) - y\<bar> \<le> 1 / 2"
  unfolding round_half_even_def Let_def by (auto simp: abs_le_iff)

lemma round_half_even_le: "y \<le> real_of_int n \<Longrightarrow> round_half_even y \<le> n"
proof -
  assume a: "y \<le> real_of_int n"
  show ?thesis
  proof (cases "y = real_of_int n")
    case True
    then show ?thesis by (simp add: round_half_even_def)
  next
    case False
    with a have "y < real_of_int n" by simp
    then have "\<lfloor>y\<rfloor> < n" by (simp add: floor_less_iff)
    then show ?thesis by (simp add: round_half_even_def Let_def)
  qed
qed

lemma round_double_eval:
  assumes "0 < x" "pow2 e \<le> x" "x < pow2 (e + 1)" "- 1022 \<le> e" "e \<le> 1022"
  shows "round_double x = Fin (of_int (round_half_even (x / pow2 (e - 52))) * pow2 (e - 52))"
proof -
  let ?q = "pow2 (e - 52)"
  let ?r = "of_int (round_half_even (x / ?q)) * ?q"
  have ex: "exponent2 x = e" using assms(1-3) by (rule exponent2_unique)
  have q: "0 < ?q" by (rule pow2_pos)
  have "pow2 (e + 1) = pow2 53 * ?q"
    using pow2_add [of 53 "e - 52"] by (simp add: algebra_simps)
  then have "x / ?q < pow2 53" using assms(3) q by (simp add: field_simps)
  then have "x / ?q \<le> real_of_int (2 ^ 53)" by (simp add: pow2_def)
  then have "round_half_even (x / ?q) \<le> 2 ^ 53" by (rule round_half_even_le)
  then have "real_of_int (round_half_even (x / ?q)) \<le> pow2 53"
    by (simp add: pow2_def)
  then have "?r \<le> pow2 53 * ?q" using q by (simp add: mult_right_mono)
  also have "\<dots> = pow2 (e + 1)"
    using pow2_add [of 53 "e - 52"] by (simp add: algebra_simps)
  also have "\<dots> < pow2 1024" using assms(5) by (intro pow2_strict_mono) simp
  finally have no: "\<not> pow2 1024 \<le> ?r" by simp
  have m: "max e (- 1022) = e" using assms(4) by simp
  show ?thesis
    unfolding round_double_def Let_def using assms(1) no by (simp add: ex m)
qed

lemma round_double_error:
  assumes "pow2 (- 1022) \<le> x" "x < pow2 1023"
  shows "\<exists>r. round_double x = Fin r \<and> \<bar>r - x\<bar> \<le> x / 2 ^ 53"
proof -
  have pos: "0 < x" using assms(1) pow2_pos [of "- 1022"] by linarith
  define e where "e = exponent2 x"
  from exponent2_bounds [OF pos] have b: "pow2 e \<le> x" "x < pow2 (e + 1)"
    by (simp_all add: e_def)
  have "pow2 (- 1022) < pow2 (e + 1)" using assms(1) b(2) by linarith
  then have lo: "- 1022 \<le> e" by (simp add: pow2_less_iff)
  have "pow2 e < pow2 1023" using assms(2) b(1) by linarith
  then have hi: "e \<le> 1022" by (simp add: pow2_less_iff)
  let ?q = "pow2 (e - 52)"
  let ?y = "x / ?q"
  let ?r = "of_int (round_half_even ?y) * ?q"
  have q: "0 < ?q" by (rule pow2_pos)
  have r: "round_double x = Fin ?r" using pos b lo hi by (rule round_double_eval)
  have "?r - x = (of_int (round_half_even ?y) - ?y) * ?q" using q by (simp add: field_simps)
  then have "\<bar>?r - x\<bar> = \<bar>of_int (round_half_even ?y) - ?y\<bar> * ?q"
    using q by (simp add: abs_mult)
  also have "\<dots> \<le> (1 / 2) * ?q"
    using round_half_even_error [of ?y] q by (intro mult_right_mono) simp_all
  also have "\<dots> = pow2 e / 2 ^ 53"
  proof -
    have "pow2 e = pow2 52 * ?q" using pow2_add [of 52 "e - 52"] by simp
    then show ?thesis by (simp add: pow2_def)
  qed
  also have "\<dots> \<le> x / 2 ^ 53" using b(1) by (simp add: divide_right_mono)
  finally have "\<bar>?r - x\<bar> \<le> x / 2 ^ 53" .
  with r show ?thesis by blast
qed


lemma rel_bounds:
  fixes r x u :: real
  assumes "\<bar>r - x\<bar> \<le> x * u"
  shows "x * (1 - u) \<le> r" "r \<le> x * (1 + u)"
  using assms by (simp_all add: abs_le_iff algebra_simps)

lemma ddiv_rounds:
  assumes "1 / 2 ^ 300 \<le> p" "p \<le> 2 ^ 300" "1 / 2 ^ 300 \<le> q" "q \<le> 2 ^ 300"
  shows "\<exists>r. ddiv (Fin p) (Fin q) = Fin r \<and> \<bar>r - p / q\<bar> \<le> (p / q) / 2 ^ 53 \<and>
             1 / 2 ^ 600 \<le> p / q \<and> p / q \<le> 2 ^ 600"
proof -
  have tiny: "(0::real) < 1 / 2 ^ 300" by simp
  have q0: "0 < q" using assms(3) tiny by linarith
  have p0: "0 < p" using assms(1) tiny by linarith
  have lo: "1 / 2 ^ 600 \<le> p / q"
  proof -
    have "(1 / 2 ^ 300) * (1 / 2 ^ 300) \<le> p * (1 / q)"
      using assms q0 by (intro mult_mono) (simp_all add: field_simps)
    then show ?thesis by (simp add: power_add [symmetric])
  qed
  have hi: "p / q \<le> 2 ^ 600"
  proof -
    have "p * (1 / q) \<le> 2 ^ 300 * 2 ^ 300"
      using assms q0 p0 by (intro mult_mono) (simp_all add: field_simps)
    then show ?thesis by (simp add: power_add [symmetric])
  qed
  have a: "pow2 (- 1022) \<le> p / q"
  proof -
    have "pow2 (- 1022) \<le> pow2 (- 600)" by (rule pow2_mono) simp
    also have "\<dots> = 1 / 2 ^ 600" by (simp add: pow2_def)
    finally show ?thesis using lo by linarith
  qed
  have b: "p / q < pow2 1023"
  proof -
    have "pow2 600 < pow2 1023" by (rule pow2_strict_mono) simp
    moreover have "pow2 600 = 2 ^ 600" by (simp add: pow2_def)
    ultimately show ?thesis using hi by linarith
  qed
  from round_double_error [OF a b] obtain r where
    "round_double (p / q) = Fin r" "\<bar>r - p / q\<bar> \<le> (p / q) / 2 ^ 53" by blast
  then show ?thesis using q0 lo hi by (simp add: ddiv_def to_double_def)
qed

lemma dmul_rounds:
  assumes "1 / 2 ^ 1000 \<le> p * q" "p * q \<le> 2 ^ 1000"
  shows "\<exists>r. dmul (Fin p) (Fin q) = Fin r \<and> \<bar>r - p * q\<bar> \<le> (p * q) / 2 ^ 53"
proof -
  have a: "pow2 (- 1022) \<le> p * q"
  proof -
    have "pow2 (- 1022) \<le> pow2 (- 1000)" by (rule pow2_mono) simp
    also have "\<dots> = 1 / 2 ^ 1000" by (simp add: pow2_def)
    finally show ?thesis using assms(1) by linarith
  qed
  have b: "p * q < pow2 1023"
  proof -
    have "pow2 1000 < pow2 1023" by (rule pow2_strict_mono) simp
    moreover have "pow2 1000 = 2 ^ 1000" by (simp add: pow2_def)
    ultimately show ?thesis using assms(2) by linarith
  qed
  from round_double_error [OF a b] show ?thesis by (simp add: dmul_def to_double_def)
qed


lemma min_rel:
  fixes a b a' b' u :: real
  assumes "a * (1 - u) \<le> a'" "a' \<le> a * (1 + u)" "b * (1 - u) \<le> b'" "b' \<le> b * (1 + u)"
    "0 \<le> u" "u \<le> 1"
  shows "min a b * (1 - u) \<le> min a' b'" "min a' b' \<le> min a b * (1 + u)"
proof -
  have 1: "min a b * (1 - u) \<le> a * (1 - u)" "min a b * (1 - u) \<le> b * (1 - u)"
    using assms(6) by (simp_all add: mult_right_mono)
  show "min a b * (1 - u) \<le> min a' b'" using 1 assms(1,3) by (simp add: min_def)
  have 2: "min a' b' \<le> a * (1 + u)" "min a' b' \<le> b * (1 + u)"
    using assms(2,4) by (simp_all add: min_def)
  show "min a' b' \<le> min a b * (1 + u)" using 2 by (auto simp: min_def split: if_splits)
qed

text \<open>
  C4, as amended. For a viewport and a card whose four sizes lie between \<open>2^-300\<close> and
  \<open>2^300\<close>, the scale is the minimum of the two quotients as doubles, within one rounding
  (a relative \<open>2^-53\<close>) of \<open>min (W / w) (H / h)\<close>. The scaled card exceeds the viewport on
  neither axis by more than the factor \<open>(1 + 2^-53)^2\<close>, reaches the viewport bound on at
  least one axis up to the factor \<open>(1 - 2^-53)^2\<close>, and keeps the ratio \<open>w / h\<close> up to the
  factor \<open>(1 + 2^-53) / (1 - 2^-53)\<close>.
\<close>

theorem card_scale_containment:
  assumes "1 / 2 ^ 300 \<le> W" "W \<le> 2 ^ 300" "1 / 2 ^ 300 \<le> H" "H \<le> 2 ^ 300"
    and "1 / 2 ^ 300 \<le> w" "w \<le> 2 ^ 300" "1 / 2 ^ 300 \<le> h" "h \<le> 2 ^ 300"
  shows "\<exists>s sw sh.
           applyLayout (Fin W) (Fin H) (Fin w) (Fin h) =
             \<lparr> scale = Fin s, scaledW = Fin sw, scaledH = Fin sh \<rparr> \<and>
           Fin s = jmin (ddiv (Fin W) (Fin w)) (ddiv (Fin H) (Fin h)) \<and>
           \<bar>s - min (W / w) (H / h)\<bar> \<le> min (W / w) (H / h) / 2 ^ 53 \<and>
           sw \<le> W * (1 + 1 / 2 ^ 53) ^ 2 \<and>
           sh \<le> H * (1 + 1 / 2 ^ 53) ^ 2 \<and>
           (W * (1 - 1 / 2 ^ 53) ^ 2 \<le> sw \<or> H * (1 - 1 / 2 ^ 53) ^ 2 \<le> sh) \<and>
           sw * h * (1 - 1 / 2 ^ 53) \<le> sh * w * (1 + 1 / 2 ^ 53) \<and>
           sh * w * (1 - 1 / 2 ^ 53) \<le> sw * h * (1 + 1 / 2 ^ 53)"
proof -
  define u :: real where "u = 1 / 2 ^ 53"
  have u: "0 < u" "u \<le> 1 / 2" by (simp_all add: u_def)
  have tiny: "(0::real) < 1 / 2 ^ 300" by simp
  have pos: "0 < W" "0 < H" "0 < w" "0 < h" using assms tiny by linarith+
  from ddiv_rounds [OF assms(1,2,5,6)] obtain a' where
    a': "ddiv (Fin W) (Fin w) = Fin a'" "\<bar>a' - W / w\<bar> \<le> (W / w) * u"
      "1 / 2 ^ 600 \<le> W / w" "W / w \<le> 2 ^ 600"
    by (auto simp: u_def)
  from ddiv_rounds [OF assms(3,4,7,8)] obtain b' where
    b': "ddiv (Fin H) (Fin h) = Fin b'" "\<bar>b' - H / h\<bar> \<le> (H / h) * u"
      "1 / 2 ^ 600 \<le> H / h" "H / h \<le> 2 ^ 600"
    by (auto simp: u_def)
  define a where "a = W / w"
  define b where "b = H / h"
  define s where "s = min a' b'"
  define m where "m = min a b"
  note ab = rel_bounds [OF a'(2)] rel_bounds [OF b'(2)]
  have ra: "a * (1 - u) \<le> a'" "a' \<le> a * (1 + u)" using ab(1,2) by (simp_all add: a_def)
  have rb: "b * (1 - u) \<le> b'" "b' \<le> b * (1 + u)" using ab(3,4) by (simp_all add: b_def)
  have sm: "m * (1 - u) \<le> s" "s \<le> m * (1 + u)"
    unfolding s_def m_def using ra rb u by (intro min_rel; simp)+
  have mlo: "1 / 2 ^ 600 \<le> m" and mhi: "m \<le> 2 ^ 600"
    using a'(3,4) b'(3,4) by (simp_all add: m_def a_def b_def min_def)
  have m0: "0 < m" using mlo tiny by (simp add: m_def a_def b_def min_def pos)
  have s_lo: "1 / 2 ^ 601 \<le> s"
  proof -
    have "(1 / 2 ^ 600) * (1 / 2) \<le> m * (1 - u)"
      using mlo u by (intro mult_mono) simp_all
    then show ?thesis using sm(1) by simp
  qed
  have s_hi: "s \<le> 2 ^ 601"
  proof -
    have "m * (1 + u) \<le> 2 ^ 600 * 2"
      using mhi u m0 by (intro mult_mono) simp_all
    then show ?thesis using sm(2) by simp
  qed
  have s0: "0 < s"
  proof -
    have "(0::real) < 1 / 2 ^ 601" by simp
    with s_lo show ?thesis by linarith
  qed
  have prod_range: "1 / 2 ^ 1000 \<le> c * s \<and> c * s \<le> 2 ^ 1000"
    if c: "1 / 2 ^ 300 \<le> c" "c \<le> 2 ^ 300" for c
  proof -
    have c0: "0 < c" using c(1) tiny by linarith
    have "(1 / 2 ^ 300) * (1 / 2 ^ 601) \<le> c * s"
      using c(1) s_lo by (intro mult_mono) simp_all
    moreover have "(1::real) / 2 ^ 1000 \<le> (1 / 2 ^ 300) * (1 / 2 ^ 601)" by simp
    moreover have "c * s \<le> 2 ^ 300 * 2 ^ 601"
      using c(2) s_hi c0 s0 by (intro mult_mono) simp_all
    moreover have "(2::real) ^ 300 * 2 ^ 601 \<le> 2 ^ 1000" by simp
    ultimately show ?thesis by linarith
  qed
  from prod_range [OF assms(5,6)] dmul_rounds [of w s] obtain sw where
    sw: "dmul (Fin w) (Fin s) = Fin sw" "\<bar>sw - w * s\<bar> \<le> (w * s) * u"
    by (auto simp: u_def)
  from prod_range [OF assms(7,8)] dmul_rounds [of h s] obtain sh where
    sh: "dmul (Fin h) (Fin s) = Fin sh" "\<bar>sh - h * s\<bar> \<le> (h * s) * u"
    by (auto simp: u_def)
  note swb = rel_bounds [OF sw(2)]
  note shb = rel_bounds [OF sh(2)]
  have jm: "jmin (ddiv (Fin W) (Fin w)) (ddiv (Fin H) (Fin h)) = Fin s"
    by (simp add: a'(1) b'(1) s_def min_def)
  have lay: "applyLayout (Fin W) (Fin H) (Fin w) (Fin h) =
               \<lparr> scale = Fin s, scaledW = Fin sw, scaledH = Fin sh \<rparr>"
    by (simp add: applyLayout_def Let_def jm sw(1) sh(1))
  have wa: "w * a = W" "h * b = H" using pos by (simp_all add: a_def b_def)
  have s_a: "s \<le> a'" and s_b: "s \<le> b'" by (simp_all add: s_def)
  have c1: "sw \<le> W * (1 + u) ^ 2"
  proof -
    have "w * s \<le> w * a'" using s_a pos by (simp add: mult_left_mono)
    also have "\<dots> \<le> w * (a * (1 + u))" using ra(2) pos by (simp add: mult_left_mono)
    also have "\<dots> = W * (1 + u)" using wa by (simp add: algebra_simps)
    finally have "w * s * (1 + u) \<le> W * (1 + u) * (1 + u)"
      using u by (intro mult_right_mono) simp_all
    with swb(2) show ?thesis by (simp add: power2_eq_square algebra_simps)
  qed
  have c2: "sh \<le> H * (1 + u) ^ 2"
  proof -
    have "h * s \<le> h * b'" using s_b pos by (simp add: mult_left_mono)
    also have "\<dots> \<le> h * (b * (1 + u))" using rb(2) pos by (simp add: mult_left_mono)
    also have "\<dots> = H * (1 + u)" using wa by (simp add: algebra_simps)
    finally have "h * s * (1 + u) \<le> H * (1 + u) * (1 + u)"
      using u by (intro mult_right_mono) simp_all
    with shb(2) show ?thesis by (simp add: power2_eq_square algebra_simps)
  qed
  have c3: "W * (1 - u) ^ 2 \<le> sw \<or> H * (1 - u) ^ 2 \<le> sh"
  proof (cases "a' \<le> b'")
    case True
    then have "s = a'" by (simp add: s_def)
    then have "w * (a * (1 - u)) \<le> w * s" using ra(1) pos by (simp add: mult_left_mono)
    moreover have "w * (a * (1 - u)) = W * (1 - u)"
      unfolding wa(1) [symmetric] by (simp add: mult.assoc)
    ultimately have "W * (1 - u) \<le> w * s" by simp
    then have "W * (1 - u) * (1 - u) \<le> w * s * (1 - u)"
      using u by (intro mult_right_mono) simp_all
    with swb(1) have "W * (1 - u) ^ 2 \<le> sw" by (simp add: power2_eq_square algebra_simps)
    then show ?thesis ..
  next
    case False
    then have "s = b'" by (simp add: s_def)
    then have "h * (b * (1 - u)) \<le> h * s" using rb(1) pos by (simp add: mult_left_mono)
    moreover have "h * (b * (1 - u)) = H * (1 - u)"
      unfolding wa(2) [symmetric] by (simp add: mult.assoc)
    ultimately have "H * (1 - u) \<le> h * s" by simp
    then have "H * (1 - u) * (1 - u) \<le> h * s * (1 - u)"
      using u by (intro mult_right_mono) simp_all
    with shb(1) have "H * (1 - u) ^ 2 \<le> sh" by (simp add: power2_eq_square algebra_simps)
    then show ?thesis ..
  qed
  have hw: "0 < h * w * s" using pos s0 by simp
  have c4: "sw * h * (1 - u) \<le> sh * w * (1 + u)"
  proof -
    have "sw * h * (1 - u) \<le> (w * s * (1 + u)) * h * (1 - u)"
      using swb(2) pos u by (intro mult_right_mono) simp_all
    also have "\<dots> = (h * s * (1 - u)) * w * (1 + u)" by (simp add: algebra_simps)
    also have "\<dots> \<le> sh * w * (1 + u)"
      using shb(1) pos u by (intro mult_right_mono) simp_all
    finally show ?thesis .
  qed
  have c5: "sh * w * (1 - u) \<le> sw * h * (1 + u)"
  proof -
    have "sh * w * (1 - u) \<le> (h * s * (1 + u)) * w * (1 - u)"
      using shb(2) pos u by (intro mult_right_mono) simp_all
    also have "\<dots> = (w * s * (1 - u)) * h * (1 + u)" by (simp add: algebra_simps)
    also have "\<dots> \<le> sw * h * (1 + u)"
      using swb(1) pos u by (intro mult_right_mono) simp_all
    finally show ?thesis .
  qed
  have c6: "\<bar>s - m\<bar> \<le> m * u"
    using sm by (simp add: abs_le_iff algebra_simps)
  show ?thesis
    using lay jm c1 c2 c3 c4 c5 c6
    unfolding u_def m_def a_def b_def by (intro exI [of _ s] exI [of _ sw] exI [of _ sh]) simp
qed


text \<open>The bounds at a viewport of 411 by 314 and a card of 800 by 600.\<close>

theorem card_scale_containment_witness:
  "\<exists>s sw sh.
     applyLayout (Fin 411) (Fin 314) (Fin 800) (Fin 600) =
       \<lparr> scale = Fin s, scaledW = Fin sw, scaledH = Fin sh \<rparr> \<and>
     Fin s = jmin (ddiv (Fin 411) (Fin 800)) (ddiv (Fin 314) (Fin 600)) \<and>
     \<bar>s - min (411 / 800) (314 / 600)\<bar> \<le> min (411 / 800) (314 / 600) / 2 ^ 53 \<and>
     sw \<le> 411 * (1 + 1 / 2 ^ 53) ^ 2 \<and>
     sh \<le> 314 * (1 + 1 / 2 ^ 53) ^ 2 \<and>
     (411 * (1 - 1 / 2 ^ 53) ^ 2 \<le> sw \<or> 314 * (1 - 1 / 2 ^ 53) ^ 2 \<le> sh) \<and>
     sw * 600 * (1 - 1 / 2 ^ 53) \<le> sh * 800 * (1 + 1 / 2 ^ 53) \<and>
     sh * 800 * (1 - 1 / 2 ^ 53) \<le> sw * 600 * (1 + 1 / 2 ^ 53)"
proof -
  have h: "(1::real) / 2 ^ 300 \<le> 411" "(411::real) \<le> 2 ^ 300"
    "(1::real) / 2 ^ 300 \<le> 314" "(314::real) \<le> 2 ^ 300"
    "(1::real) / 2 ^ 300 \<le> 800" "(800::real) \<le> 2 ^ 300"
    "(1::real) / 2 ^ 300 \<le> 600" "(600::real) \<le> 2 ^ 300"
    by simp_all
  from card_scale_containment [OF h] show ?thesis .
qed

text \<open>
  C4 as stated fails in double precision: for a viewport of 411 by 314 and a card of 800
  by 600 the scale is the double nearest to 0.51375, the scaled width is
  \<open>411 + 2^-44\<close> (printed \<open>411.00000000000006\<close>), more than the viewport's 411, and the
  scaled height is 308.25, so neither axis equals its bound.
\<close>

lemma round_double_411_800: "round_double (411 / 800) = Fin (4627448617123185 / 2 ^ 53)"
proof -
  have "round_double (411 / 800) =
    Fin (of_int (round_half_even ((411 / 800) / pow2 (- 1 - 52))) * pow2 (- 1 - 52))"
    by (rule round_double_eval) (simp_all add: pow2_def)
  also have "round_half_even ((411 / 800) / pow2 (- 1 - 52)) = 4627448617123185"
    by (simp add: round_half_even_def pow2_def Let_def)
  finally show ?thesis by (simp add: pow2_def)
qed

lemma round_double_314_600: "round_double (157 / 300) = Fin (4713767609981119 / 2 ^ 53)"
proof -
  have "round_double (157 / 300) =
    Fin (of_int (round_half_even ((157 / 300) / pow2 (- 1 - 52))) * pow2 (- 1 - 52))"
    by (rule round_double_eval) (simp_all add: pow2_def)
  also have "round_half_even ((157 / 300) / pow2 (- 1 - 52)) = 4713767609981119"
    by (simp add: round_half_even_def pow2_def Let_def)
  finally show ?thesis by (simp add: pow2_def)
qed

lemma round_double_scaledW:
  "round_double (800 * (4627448617123185 / 2 ^ 53)) = Fin (411 + 1 / 2 ^ 44)"
proof -
  have "round_double (800 * (4627448617123185 / 2 ^ 53)) =
    Fin (of_int (round_half_even ((800 * (4627448617123185 / 2 ^ 53)) / pow2 (8 - 52))) * pow2 (8 - 52))"
    by (rule round_double_eval) (simp_all add: pow2_def)
  also have "round_half_even ((800 * (4627448617123185 / 2 ^ 53)) / pow2 (8 - 52)) = 7230388464254977"
    by (simp add: round_half_even_def pow2_def Let_def)
  finally show ?thesis by (simp add: pow2_def)
qed

lemma round_double_scaledH:
  "round_double (600 * (4627448617123185 / 2 ^ 53)) = Fin (1233 / 4)"
proof -
  have "round_double (600 * (4627448617123185 / 2 ^ 53)) =
    Fin (of_int (round_half_even ((600 * (4627448617123185 / 2 ^ 53)) / pow2 (8 - 52))) * pow2 (8 - 52))"
    by (rule round_double_eval) (simp_all add: pow2_def)
  also have "round_half_even ((600 * (4627448617123185 / 2 ^ 53)) / pow2 (8 - 52)) = 5422791348191232"
    by (simp add: round_half_even_def pow2_def Let_def)
  finally show ?thesis by (simp add: pow2_def)
qed

theorem card_exceeds_viewport_counterexample:
  "applyLayout (Fin 411) (Fin 314) (Fin 800) (Fin 600) =
     \<lparr> scale = Fin (4627448617123185 / 2 ^ 53),
       scaledW = Fin (411 + 1 / 2 ^ 44),
       scaledH = Fin (1233 / 4) \<rparr> \<and>
   \<not> jle (scaledW (applyLayout (Fin 411) (Fin 314) (Fin 800) (Fin 600))) (Fin 411) \<and>
   scaledW (applyLayout (Fin 411) (Fin 314) (Fin 800) (Fin 600)) \<noteq> Fin 411 \<and>
   scaledH (applyLayout (Fin 411) (Fin 314) (Fin 800) (Fin 600)) \<noteq> Fin 314"
proof -
  have l: "applyLayout (Fin 411) (Fin 314) (Fin 800) (Fin 600) =
     \<lparr> scale = Fin (4627448617123185 / 2 ^ 53),
       scaledW = Fin (411 + 1 / 2 ^ 44),
       scaledH = Fin (1233 / 4) \<rparr>"
  proof -
    have d1: "ddiv (Fin 411) (Fin 800) = Fin (4627448617123185 / 2 ^ 53)"
      by (simp add: ddiv_def to_double_def round_double_411_800)
    have d2: "ddiv (Fin 314) (Fin 600) = Fin (4713767609981119 / 2 ^ 53)"
      by (simp add: ddiv_def to_double_def round_double_314_600)
    have m: "jmin (Fin (4627448617123185 / 2 ^ 53)) (Fin (4713767609981119 / 2 ^ 53)) =
             Fin (4627448617123185 / 2 ^ 53)"
      by simp
    have m1: "dmul (Fin 800) (Fin (4627448617123185 / 2 ^ 53)) = Fin (411 + 1 / 2 ^ 44)"
      by (simp only: dmul_def to_double_def jmul.simps jsnum.case round_double_scaledW)
    have m2: "dmul (Fin 600) (Fin (4627448617123185 / 2 ^ 53)) = Fin (1233 / 4)"
      by (simp only: dmul_def to_double_def jmul.simps jsnum.case round_double_scaledH)
    show ?thesis by (simp only: applyLayout_def Let_def d1 d2 m m1 m2)
  qed
  show ?thesis unfolding l by simp
qed


section \<open>The flip state\<close>

text \<open>
  C6. While \<open>isAnimating\<close> holds, \<open>flip\<close> changes nothing. Two calls of \<open>flip\<close> before the
  timer of the first one fires therefore toggle \<open>isFlipped\<close> once, start one timer, and
  \<open>isFlipped\<close> is still the negation of its first value after the timer has fired.
\<close>

theorem flip_dropped_while_animating:
  "(isAnimating st \<longrightarrow> flip st = st) \<and>
   (\<not> isAnimating st \<longrightarrow>
      flip (flip st) = flip st \<and>
      isFlipped (flip (flip st)) = (\<not> isFlipped st) \<and>
      isFlipped (flipTimeout (flip (flip st))) = (\<not> isFlipped st) \<and>
      \<not> isAnimating (flipTimeout (flip (flip st))) \<and>
      flipTimers (flip (flip st)) = Suc (flipTimers st))"
  by (simp add: flip_def flipTimeout_def Let_def)

text \<open>On a new controller: the first call starts the animation, the second is dropped.\<close>

theorem flip_dropped_while_animating_witness:
  "\<not> isAnimating fresh_controller \<and> isAnimating (flip fresh_controller) \<and>
   flip (flip fresh_controller) = flip fresh_controller \<and>
   isFlipped (flip (flip fresh_controller)) \<and>
   isFlipped (flipTimeout (flip (flip fresh_controller)))"
proof -
  have a: "\<not> isAnimating fresh_controller" by (simp add: fresh_controller_def)
  have b: "isAnimating (flip fresh_controller)" by (simp add: fresh_controller_def flip_def Let_def)
  have c: "\<not> isFlipped fresh_controller" by (simp add: fresh_controller_def)
  show ?thesis
    using flip_dropped_while_animating [of fresh_controller]
      flip_dropped_while_animating [of "flip fresh_controller"] a b c
    by simp
qed

text \<open>
  C7. Whatever the state, after \<open>hide\<close> and then \<open>show\<close> the controller is not
  flipped, the root element has no \<open>realpic-flipped\<close> class, and the component is
  visible: \<open>hide\<close> always runs \<open>reset\<close>, which clears the flag and the class and
  touches neither the animation flag, the transform nor the timers.
\<close>

theorem hide_then_show_front:
  "isFlipped (show_op (hide st)) = False \<and>
   ''realpic-flipped'' \<notin> rootClasses (show_op (hide st)) \<and>
   isVisible (show_op (hide st)) \<and>
   hide st = reset (st \<lparr> rootClasses := insert ''realpic-hidden'' (rootClasses st) \<rparr>) \<and>
   isFlipped (reset st) = False \<and>
   ''realpic-flipped'' \<notin> rootClasses (reset st) \<and>
   isAnimating (reset st) = isAnimating st \<and>
   transform (reset st) = transform st \<and>
   flipTimers (reset st) = flipTimers st"
  by (simp add: show_op_def hide_def reset_def isVisible_def)

section \<open>Inheritance and explicit zero sizes\<close>

text \<open>
  C8. When normalization succeeds and the back descriptor leaves \<open>width\<close> (or \<open>height\<close>)
  unset, the back's value is the front's value; the front's value is the front
  descriptor's own one and never depends on the back. For the descriptor
  \<open>{front: {width: 800, height: 600}, back: {}}\<close> the back is 800 by 600.
\<close>

theorem back_inherits_front:
  assumes "parse raw base = Inr (cfg, ws)"
  shows "(nullish (opt_prop (side_descriptor raw ''back'') ''width'') \<longrightarrow>
            side_width (back_side cfg) = side_width (front_side cfg)) \<and>
         (nullish (opt_prop (side_descriptor raw ''back'') ''height'') \<longrightarrow>
            side_height (back_side cfg) = side_height (front_side cfg)) \<and>
         side_width (front_side cfg) =
            js_nc (opt_prop (side_descriptor raw ''front'') ''width'') Null \<and>
         side_height (front_side cfg) =
            js_nc (opt_prop (side_descriptor raw ''front'') ''height'') Null \<and>
         parse (Obj [(''front'', Obj [(''width'', Num (Fin 800)), (''height'', Num (Fin 600))]),
                     (''back'', Obj [])]) base' =
           Inr (\<lparr> front_side = \<lparr> side_image = Null, side_background = Str DEFAULT_BACKGROUND,
                                 side_width = Num (Fin 800), side_height = Num (Fin 600) \<rparr>,
                  back_side = \<lparr> side_image = Null, side_background = Str DEFAULT_BACKGROUND,
                                side_width = Num (Fin 800), side_height = Num (Fin 600) \<rparr>,
                  contentArea = default_areas \<rparr>, [])"
  using parse_sides(1-4) [OF assms] by (simp add: parse_inheritance_any_base)

text \<open>The hypotheses of C8 at \<open>{front: {width: 800, height: 600}, back: {}}\<close>.\<close>

theorem back_inherits_front_witness:
  "nullish (opt_prop (side_descriptor
     (Obj [(''front'', Obj [(''width'', Num (Fin 800)), (''height'', Num (Fin 600))]),
           (''back'', Obj [])]) ''back'') ''width'') \<and>
   nullish (opt_prop (side_descriptor
     (Obj [(''front'', Obj [(''width'', Num (Fin 800)), (''height'', Num (Fin 600))]),
           (''back'', Obj [])]) ''back'') ''height'') \<and>
   (\<exists>cfg ws.
      parse (Obj [(''front'', Obj [(''width'', Num (Fin 800)), (''height'', Num (Fin 600))]),
                  (''back'', Obj [])]) ''/themes/x/'' = Inr (cfg, ws) \<and>
      side_width (back_side cfg) = side_width (front_side cfg) \<and>
      side_height (back_side cfg) = side_height (front_side cfg) \<and>
      side_width (front_side cfg) = Num (Fin 800) \<and>
      side_height (front_side cfg) = Num (Fin 600))"
proof -
  have h: "nullish (opt_prop (side_descriptor
     (Obj [(''front'', Obj [(''width'', Num (Fin 800)), (''height'', Num (Fin 600))]),
           (''back'', Obj [])]) ''back'') ''width'') \<and>
   nullish (opt_prop (side_descriptor
     (Obj [(''front'', Obj [(''width'', Num (Fin 800)), (''height'', Num (Fin 600))]),
           (''back'', Obj [])]) ''back'') ''height'')"
    by (simp add: side_descriptor_def js_or_def nullish_def)
  have v: "js_nc (opt_prop (side_descriptor
     (Obj [(''front'', Obj [(''width'', Num (Fin 800)), (''height'', Num (Fin 600))]),
           (''back'', Obj [])]) ''front'') ''width'') Null = Num (Fin 800) \<and>
   js_nc (opt_prop (side_descriptor
     (Obj [(''front'', Obj [(''width'', Num (Fin 800)), (''height'', Num (Fin 600))]),
           (''back'', Obj [])]) ''front'') ''height'') Null = Num (Fin 600)"
    by (simp add: side_descriptor_def js_or_def js_nc_def nullish_def)
  from back_inherits_front [OF parse_inheritance_any_base [of "''/themes/x/''"]] h v
  have "side_width (back_side \<lparr> front_side = \<lparr> side_image = Null, side_background = Str DEFAULT_BACKGROUND,
                                 side_width = Num (Fin 800), side_height = Num (Fin 600) \<rparr>,
                  back_side = \<lparr> side_image = Null, side_background = Str DEFAULT_BACKGROUND,
                                side_width = Num (Fin 800), side_height = Num (Fin 600) \<rparr>,
                  contentArea = default_areas \<rparr>) = Num (Fin 800)"
    by simp
  with h parse_inheritance_any_base [of "''/themes/x/''"] show ?thesis by simp
qed

lemma spec_chain_explicit: "v \<noteq> Null \<Longrightarrow> spec_chain v f c ax d = v"
  by (simp add: spec_chain_def)

text \<open>
  C10. An explicit \<open>width: 0\<close> or \<open>height: 0\<close> of a side survives normalization and
  dimension resolution: it is not replaced by an image size or by 800 by 600, and on the
  back it is not replaced by the front's value. An explicit empty background is
  replaced by the default colour. So a resolved face dimension can be zero.
\<close>

theorem explicit_zero_preserved:
  assumes "parse raw base = Inr (cfg, ws)"
  shows "(opt_prop (side_descriptor raw ''front'') ''width'' = Num (Fin 0) \<longrightarrow>
            side_width (front_side cfg) = Num (Fin 0) \<and>
            width (front_dims (getDimensions cfg imgs)) = Num (Fin 0) \<and>
            width (realpic (getDimensions cfg imgs)) = Num (Fin 0)) \<and>
         (opt_prop (side_descriptor raw ''front'') ''height'' = Num (Fin 0) \<longrightarrow>
            side_height (front_side cfg) = Num (Fin 0) \<and>
            height (front_dims (getDimensions cfg imgs)) = Num (Fin 0) \<and>
            height (realpic (getDimensions cfg imgs)) = Num (Fin 0)) \<and>
         (opt_prop (side_descriptor raw ''back'') ''width'' = Num (Fin 0) \<longrightarrow>
            side_width (back_side cfg) = Num (Fin 0) \<and>
            width (back_dims (getDimensions cfg imgs)) = Num (Fin 0)) \<and>
         (opt_prop (side_descriptor raw ''back'') ''height'' = Num (Fin 0) \<longrightarrow>
            side_height (back_side cfg) = Num (Fin 0) \<and>
            height (back_dims (getDimensions cfg imgs)) = Num (Fin 0)) \<and>
         (opt_prop (side_descriptor raw ''front'') ''background'' = Str [] \<longrightarrow>
            side_background (front_side cfg) = Str DEFAULT_BACKGROUND) \<and>
         (opt_prop (side_descriptor raw ''back'') ''background'' = Str [] \<longrightarrow>
            side_background (back_side cfg) = Str DEFAULT_BACKGROUND)"
proof -
  note ps = parse_sides [OF assms]
  have w: "side_width (front_side cfg) \<noteq> Undefined"
    using ps(1) by (simp add: js_nc_Null_defined)
  have h: "side_height (front_side cfg) \<noteq> Undefined"
    using ps(2) by (simp add: js_nc_Null_defined)
  note fw = getDimensions_front_width [OF w h, of imgs]
  note fh = getDimensions_front_height [OF w h, of imgs]
  note rp = getDimensions_realpic [of cfg imgs]
  note bk = getDimensions_back [of cfg imgs]
  have a: "opt_prop (side_descriptor raw ''front'') ''width'' = Num (Fin 0) \<longrightarrow>
            side_width (front_side cfg) = Num (Fin 0) \<and>
            width (front_dims (getDimensions cfg imgs)) = Num (Fin 0) \<and>
            width (realpic (getDimensions cfg imgs)) = Num (Fin 0)"
    using ps(1) fw rp by (simp add: js_nc_def nullish_def spec_chain_explicit)
  have b: "opt_prop (side_descriptor raw ''front'') ''height'' = Num (Fin 0) \<longrightarrow>
            side_height (front_side cfg) = Num (Fin 0) \<and>
            height (front_dims (getDimensions cfg imgs)) = Num (Fin 0) \<and>
            height (realpic (getDimensions cfg imgs)) = Num (Fin 0)"
    using ps(2) fh rp by (simp add: js_nc_def nullish_def spec_chain_explicit)
  have c: "opt_prop (side_descriptor raw ''back'') ''width'' = Num (Fin 0) \<longrightarrow>
            side_width (back_side cfg) = Num (Fin 0) \<and>
            width (back_dims (getDimensions cfg imgs)) = Num (Fin 0)"
    using ps(3) bk by (simp add: js_nc_def nullish_def)
  have d: "opt_prop (side_descriptor raw ''back'') ''height'' = Num (Fin 0) \<longrightarrow>
            side_height (back_side cfg) = Num (Fin 0) \<and>
            height (back_dims (getDimensions cfg imgs)) = Num (Fin 0)"
    using ps(4) bk by (simp add: js_nc_def nullish_def)
  have e: "opt_prop (side_descriptor raw ''front'') ''background'' = Str [] \<longrightarrow>
            side_background (front_side cfg) = Str DEFAULT_BACKGROUND"
    using ps(5) by (simp add: js_or_def)
  have f: "opt_prop (side_descriptor raw ''back'') ''background'' = Str [] \<longrightarrow>
            side_background (back_side cfg) = Str DEFAULT_BACKGROUND"
    using ps(6) by (simp add: js_or_def)
  from a b c d e f show ?thesis by blast
qed

lemma parse_zero_example:
  "parse (Obj [(''front'', Obj [(''width'', Num (Fin 0)), (''height'', Num (Fin 0)),
                                (''background'', Str [])]),
               (''back'', Obj [(''width'', Num (Fin 0)), (''height'', Num (Fin 0)),
                               (''background'', Str [])])]) ''/themes/x/'' =
     Inr (\<lparr> front_side = \<lparr> side_image = Null, side_background = Str DEFAULT_BACKGROUND,
                           side_width = Num (Fin 0), side_height = Num (Fin 0) \<rparr>,
            back_side = \<lparr> side_image = Null, side_background = Str DEFAULT_BACKGROUND,
                          side_width = Num (Fin 0), side_height = Num (Fin 0) \<rparr>,
            contentArea = default_areas \<rparr>, [])"
  by (simp add: parseContentAreas_def default_areas_def parse_def bind_def get_prop_def
      nullish_def js_or_def js_nc_def parseSideConfig_def
      resolveDependencies_def resolveImagePaths_def resolveSideImage_def validate_def
      side_at_def endsWith_def Let_def)

text \<open>Both sides with zero sizes and empty backgrounds, and a loaded front frame.\<close>

theorem explicit_zero_preserved_witness:
  "width (front_dims (getDimensions
     \<lparr> front_side = \<lparr> side_image = Null, side_background = Str DEFAULT_BACKGROUND,
                       side_width = Num (Fin 0), side_height = Num (Fin 0) \<rparr>,
       back_side = \<lparr> side_image = Null, side_background = Str DEFAULT_BACKGROUND,
                      side_width = Num (Fin 0), side_height = Num (Fin 0) \<rparr>,
       contentArea = default_areas \<rparr>
     [FrontFrame \<mapsto> \<lparr> img_width = 1080, img_height = 720, img_url = Str ''/themes/x/f.png'' \<rparr>])) =
     Num (Fin 0) \<and>
   height (back_dims (getDimensions
     \<lparr> front_side = \<lparr> side_image = Null, side_background = Str DEFAULT_BACKGROUND,
                       side_width = Num (Fin 0), side_height = Num (Fin 0) \<rparr>,
       back_side = \<lparr> side_image = Null, side_background = Str DEFAULT_BACKGROUND,
                      side_width = Num (Fin 0), side_height = Num (Fin 0) \<rparr>,
       contentArea = default_areas \<rparr>
     [FrontFrame \<mapsto> \<lparr> img_width = 1080, img_height = 720, img_url = Str ''/themes/x/f.png'' \<rparr>])) =
     Num (Fin 0)"
  using explicit_zero_preserved [OF parse_zero_example,
      of "[FrontFrame \<mapsto> \<lparr> img_width = 1080, img_height = 720, img_url = Str ''/themes/x/f.png'' \<rparr>]"]
  by (simp add: side_descriptor_def js_or_def)

section \<open>Descriptors on which normalization throws\<close>

lemma js_or_truthy: "truthy d \<Longrightarrow> truthy (js_or v d)"
  by (simp add: js_or_def)

lemma js_nc_not_nullish: "\<not> nullish d \<Longrightarrow> \<not> nullish (js_nc v d)"
  by (simp add: js_nc_def)

lemma parseAreaEntry_Inr:
  assumes "\<not> nullish a"
  shows "\<exists>r. parseAreaEntry i a = Inr r \<and> area_resolved r"
proof -
  have n: "\<And>x :: real. \<not> nullish (Num (Fin x))" by (simp add: nullish_def)
  show ?thesis using assms
    by (simp add: parseAreaEntry_def area_resolved_def js_or_truthy js_nc_not_nullish n)
qed

lemma parseAreaEntry_Inl: "nullish a \<Longrightarrow> parseAreaEntry i a = Inl TypeError"
  by (simp add: parseAreaEntry_def)

lemma parseAreaEntries_ok:
  "list_all (\<lambda>a. \<not> nullish a) xs \<Longrightarrow>
   \<exists>rs. parseAreaEntries i xs = Inr rs \<and> list_all area_resolved rs \<and> length rs = length xs"
proof (induction xs arbitrary: i)
  case Nil
  then show ?case by simp
next
  case (Cons a xs)
  from Cons.prems have a: "\<not> nullish a" and xs: "list_all (\<lambda>a. \<not> nullish a) xs" by simp_all
  from parseAreaEntry_Inr [OF a, of i] obtain r where
    r: "parseAreaEntry i a = Inr r" "area_resolved r" by blast
  from Cons.IH [OF xs, of "Suc i"] obtain rs where
    rs: "parseAreaEntries (Suc i) xs = Inr rs" "list_all area_resolved rs" "length rs = length xs"
    by blast
  show ?case using r rs by (simp add: bind_def)
qed

lemma parseAreaEntries_fail:
  "\<not> list_all (\<lambda>a. \<not> nullish a) xs \<Longrightarrow> parseAreaEntries i xs = Inl TypeError"
proof (induction xs arbitrary: i)
  case Nil
  then show ?case by simp
next
  case (Cons a xs)
  show ?case
  proof (cases "nullish a")
    case True
    then show ?thesis by (simp add: parseAreaEntry_Inl bind_def)
  next
    case False
    with Cons.prems have "\<not> list_all (\<lambda>a. \<not> nullish a) xs" by simp
    from Cons.IH [OF this, of "Suc i"] have f: "parseAreaEntries (Suc i) xs = Inl TypeError" .
    from parseAreaEntry_Inr [OF False, of i] obtain r where "parseAreaEntry i a = Inr r" by blast
    with f show ?thesis by (simp add: bind_def)
  qed
qed

lemma parseContentAreas_ok:
  assumes "entries_ok ra"
  shows "\<exists>ca. parseContentAreas (js_or ra (Arr [])) = Inr ca \<and>
           (case ra of Arr (a # as) \<Rightarrow> list_all area_resolved ca \<and> length ca = Suc (length as)
                     | _ \<Rightarrow> ca = default_areas)"
proof (cases ra)
  case (Arr xs)
  show ?thesis
  proof (cases xs)
    case Nil
    with Arr show ?thesis by (simp add: js_or_def parseContentAreas_def)
  next
    case (Cons a as)
    from assms Arr Cons have "list_all (\<lambda>a. \<not> nullish a) (a # as)" by (simp add: entries_ok_def)
    from parseAreaEntries_ok [OF this, of 0] Arr Cons show ?thesis
      by (auto simp: js_or_def parseContentAreas_def)
  qed
qed (simp_all add: js_or_def parseContentAreas_def)

lemma parseContentAreas_fail:
  assumes "\<not> entries_ok ra"
  shows "parseContentAreas (js_or ra (Arr [])) = Inl TypeError"
proof (cases ra)
  case (Arr xs)
  with assms have n: "\<not> list_all (\<lambda>a. \<not> nullish a) xs" by (simp add: entries_ok_def)
  then obtain a as where "xs = a # as" by (cases xs) simp_all
  with Arr n parseAreaEntries_fail [OF n, of 0] show ?thesis
    by (simp add: js_or_def parseContentAreas_def)
qed (use assms in \<open>simp_all add: entries_ok_def\<close>)

lemma resolveSideImage_ok:
  "\<not> truthy (side_image sc) \<or> (\<exists>p. side_image sc = Str p) \<Longrightarrow>
   \<exists>sc'. resolveSideImage sc base = Inr sc'"
  by (auto simp: resolveSideImage_def resolvePath_def bind_def)

lemma resolveSideImage_fail:
  "\<not> (\<not> truthy (side_image sc) \<or> (\<exists>p. side_image sc = Str p)) \<Longrightarrow>
   resolveSideImage sc base = Inl TypeError"
  by (cases "side_image sc") (simp_all add: resolveSideImage_def resolvePath_def bind_def)

lemma image_ok_iff:
  "image_ok sd \<longleftrightarrow>
   (\<not> truthy (js_or (opt_prop sd ''image'') Null) \<or>
    (\<exists>p. js_or (opt_prop sd ''image'') Null = Str p))"
  by (cases "opt_prop sd ''image''") (auto simp: image_ok_def js_or_def)

lemma resolveImagePaths_ok:
  assumes "\<And>bs. \<exists>sc'. resolveSideImage (front_side c) bs = Inr sc'"
    and "\<And>bs. \<exists>sc'. resolveSideImage (back_side c) bs = Inr sc'"
  shows "\<exists>cfg. resolveImagePaths c base = Inr cfg"
proof (cases "base = []")
  case True
  then show ?thesis by (simp add: resolveImagePaths_def)
next
  case False
  let ?bs = "if endsWith base ''/'' then base else base @ ''/''"
  from assms(1) [of ?bs] obtain f where f: "resolveSideImage (front_side c) ?bs = Inr f" by blast
  from assms(2) [of ?bs] obtain b where b: "resolveSideImage (back_side c) ?bs = Inr b" by blast
  have "resolveImagePaths c base = Inr (c \<lparr> front_side := f, back_side := b \<rparr>)"
    unfolding resolveImagePaths_def Let_def using False f b by (simp add: bind_def)
  then show ?thesis ..
qed

lemma parse_unfold:
  assumes "\<not> nullish raw"
  shows "parse raw base =
     bind (parseSideConfig (side_descriptor raw ''front'')) (\<lambda>f.
     bind (parseSideConfig (side_descriptor raw ''back'')) (\<lambda>b.
     bind (parseContentAreas (js_or (opt_prop raw ''contentArea'') (Arr []))) (\<lambda>ca.
     bind (resolveImagePaths
             (resolveDependencies \<lparr> front_side = f, back_side = b, contentArea = ca \<rparr>) base)
       (\<lambda>cfg. Inr (cfg, validate cfg)))))"
  using assms by (simp add: parse_def get_prop_def bind_def side_descriptor_def)

lemma parse_nullish: "nullish raw \<Longrightarrow> parse raw base = Inl TypeError"
  by (simp add: parse_def get_prop_def bind_def)

lemma parse_succeeds:
  assumes "well_formed raw base"
  shows "\<exists>cfg. parse raw base = Inr (cfg, validate cfg)"
proof -
  from assms have nn: "\<not> nullish raw"
    and im: "base = [] \<or> image_ok (side_descriptor raw ''front'') \<and> image_ok (side_descriptor raw ''back'')"
    and en: "entries_ok (opt_prop raw ''contentArea'')"
    by (simp_all add: well_formed_def)
  obtain f where f: "parseSideConfig (side_descriptor raw ''front'') = Inr f"
    and fi: "side_image f = js_or (opt_prop (side_descriptor raw ''front'') ''image'') Null"
    by (simp add: parseSideConfig_value side_descriptor_not_nullish)
  obtain b where b: "parseSideConfig (side_descriptor raw ''back'') = Inr b"
    and bi: "side_image b = js_or (opt_prop (side_descriptor raw ''back'') ''image'') Null"
    by (simp add: parseSideConfig_value side_descriptor_not_nullish)
  from parseContentAreas_ok [OF en] obtain ca where
    ca: "parseContentAreas (js_or (opt_prop raw ''contentArea'') (Arr [])) = Inr ca" by blast
  let ?c = "resolveDependencies \<lparr> front_side = f, back_side = b, contentArea = ca \<rparr>"
  have "\<exists>cfg. resolveImagePaths ?c base = Inr cfg"
  proof (cases "base = []")
    case True
    then show ?thesis by (simp add: resolveImagePaths_def)
  next
    case False
    with im have okf: "image_ok (side_descriptor raw ''front'')"
      and okb: "image_ok (side_descriptor raw ''back'')" by simp_all
    have "side_image (front_side ?c) = side_image f" "side_image (back_side ?c) = side_image b"
      by (simp_all add: resolveDependencies_fields)
    with okf okb fi bi have
      "\<not> truthy (side_image (front_side ?c)) \<or> (\<exists>p. side_image (front_side ?c) = Str p)"
      "\<not> truthy (side_image (back_side ?c)) \<or> (\<exists>p. side_image (back_side ?c) = Str p)"
      by (simp_all add: image_ok_iff)
    then show ?thesis
      by (intro resolveImagePaths_ok resolveSideImage_ok)
  qed
  then obtain cfg where "resolveImagePaths ?c base = Inr cfg" by blast
  with f b ca show ?thesis by (simp add: parse_unfold [OF nn] bind_def)
qed

lemma parse_fails:
  assumes "\<not> well_formed raw base"
  shows "parse raw base = Inl TypeError"
proof (cases "nullish raw")
  case True
  then show ?thesis by (rule parse_nullish)
next
  case nn: False
  obtain f where f: "parseSideConfig (side_descriptor raw ''front'') = Inr f"
    and fi: "side_image f = js_or (opt_prop (side_descriptor raw ''front'') ''image'') Null"
    by (simp add: parseSideConfig_value side_descriptor_not_nullish)
  obtain b where b: "parseSideConfig (side_descriptor raw ''back'') = Inr b"
    and bi: "side_image b = js_or (opt_prop (side_descriptor raw ''back'') ''image'') Null"
    by (simp add: parseSideConfig_value side_descriptor_not_nullish)
  show ?thesis
  proof (cases "entries_ok (opt_prop raw ''contentArea'')")
    case False
    from parseContentAreas_fail [OF this] f b show ?thesis
      by (simp add: parse_unfold [OF nn] bind_def)
  next
    case en: True
    from parseContentAreas_ok [OF en] obtain ca where
      ca: "parseContentAreas (js_or (opt_prop raw ''contentArea'') (Arr [])) = Inr ca" by blast
    let ?c = "resolveDependencies \<lparr> front_side = f, back_side = b, contentArea = ca \<rparr>"
    from assms nn en have base: "base \<noteq> []"
      and bad: "\<not> image_ok (side_descriptor raw ''front'') \<or> \<not> image_ok (side_descriptor raw ''back'')"
      by (auto simp: well_formed_def)
    have si: "side_image (front_side ?c) = side_image f" "side_image (back_side ?c) = side_image b"
      by (simp_all add: resolveDependencies_fields)
    have "resolveImagePaths ?c base = Inl TypeError"
    proof (cases "image_ok (side_descriptor raw ''front'')")
      case False
      with fi si have "\<not> (\<not> truthy (side_image (front_side ?c)) \<or> (\<exists>p. side_image (front_side ?c) = Str p))"
        by (simp add: image_ok_iff)
      from resolveSideImage_fail [OF this] base show ?thesis
        by (simp add: resolveImagePaths_def Let_def bind_def)
    next
      case True
      with fi si have "\<not> truthy (side_image (front_side ?c)) \<or> (\<exists>p. side_image (front_side ?c) = Str p)"
        by (simp add: image_ok_iff)
      from resolveSideImage_ok [OF this] have fr: "\<And>bs. \<exists>sc'. resolveSideImage (front_side ?c) bs = Inr sc'" .
      from True bad bi si have "\<not> (\<not> truthy (side_image (back_side ?c)) \<or> (\<exists>p. side_image (back_side ?c) = Str p))"
        by (simp add: image_ok_iff)
      from resolveSideImage_fail [OF this] have bk: "\<And>bs. resolveSideImage (back_side ?c) bs = Inl TypeError" .
      obtain sc' where "resolveSideImage (front_side ?c) (if endsWith base ''/'' then base else base @ ''/'') = Inr sc'"
        using fr by blast
      with bk base show ?thesis
        by (simp add: resolveImagePaths_def Let_def bind_def)
    qed
    with f b ca show ?thesis by (simp add: parse_unfold [OF nn] bind_def)
  qed
qed

lemma parse_side_defaulted:
  assumes "parse raw base = Inr (cfg, ws)"
  shows "side_defaulted (front_side cfg) \<and> side_defaulted (back_side cfg)"
proof -
  note ps = parse_sides [OF assms]
  have d: "truthy (Str DEFAULT_BACKGROUND)" by (simp add: DEFAULT_BACKGROUND_def)
  have fw: "side_width (front_side cfg) \<noteq> Undefined" using ps(1) by (simp add: js_nc_Null_defined)
  have fh: "side_height (front_side cfg) \<noteq> Undefined" using ps(2) by (simp add: js_nc_Null_defined)
  have bw: "side_width (back_side cfg) \<noteq> Undefined"
    using ps(3) fw by (auto simp: nullish_def)
  have bh: "side_height (back_side cfg) \<noteq> Undefined"
    using ps(4) fh by (auto simp: nullish_def)
  have fb: "truthy (side_background (front_side cfg))" using ps(5) d by (simp add: js_or_truthy)
  have bb: "truthy (side_background (back_side cfg))" using ps(6) d by (simp add: js_or_truthy)
  from fw fh bw bh fb bb ps(7,8) show ?thesis by (simp add: side_defaulted_def)
qed

lemma parse_contentArea:
  assumes "parse raw base = Inr (cfg, ws)"
  shows "parseContentAreas (js_or (opt_prop raw ''contentArea'') (Arr [])) = Inr (contentArea cfg)"
proof -
  from parse_steps [OF assms] obtain f b ca where
    ca: "parseContentAreas (js_or (opt_prop raw ''contentArea'') (Arr [])) = Inr ca" and
    r: "resolveImagePaths (resolveDependencies
          \<lparr> front_side = f, back_side = b, contentArea = ca \<rparr>) base = Inr cfg"
    by blast
  have "contentArea cfg = ca"
    using resolveImagePaths_fields [OF r] by (simp add: resolveDependencies_fields)
  with ca show ?thesis by simp
qed

lemma parse_listed_areas:
  assumes "parse raw base = Inr (cfg, ws)" "opt_prop raw ''contentArea'' = Arr (a # as)"
  shows "list_all area_resolved (contentArea cfg) \<and> length (contentArea cfg) = Suc (length as)"
proof -
  have en: "entries_ok (opt_prop raw ''contentArea'')"
  proof (rule ccontr)
    assume "\<not> entries_ok (opt_prop raw ''contentArea'')"
    from parseContentAreas_fail [OF this] parse_contentArea [OF assms(1)] show False by simp
  qed
  from parseContentAreas_ok [OF en] parse_contentArea [OF assms(1)] assms(2)
  show ?thesis by auto
qed

lemma loadConfig_string:
  assumes "opt_prop (options st) ''themePath'' = Str tb" "tb \<noteq> []"
  shows "loadConfig fr st =
           Inr (st \<lparr> parsedConfig := Some
             (case fr of
                Json raw \<Rightarrow> (case parse raw tb of Inr (cfg, ws) \<Rightarrow> cfg | Inl e \<Rightarrow> default_config)
              | _ \<Rightarrow> default_config) \<rparr>)"
  using assms
  by (cases fr) (simp_all add: loadConfig_def parse_empty_any_base split: sum.splits)

text \<open>
  C9, as amended. Normalization completes without throwing exactly on the descriptors
  that are not \<open>null\<close>, whose \<open>contentArea\<close> entries are not \<open>null\<close> and whose side
  images are absent, falsy or strings (the images matter only when there is a base
  path). On those, every field of both sides has a value or its default, every area of a
  non-empty \<open>contentArea\<close> list has all of its fields, and validation only adds
  warnings to the config it is given. On every other descriptor \<open>parse\<close> throws a
  \<open>TypeError\<close>; \<open>_loadConfig\<close> catches it and normalizes \<open>{}\<close> instead, so loading the
  theme config does not fail on a malformed descriptor.
\<close>

theorem normalization_of_well_formed_descriptors:
  "(well_formed raw1 base1 \<longrightarrow>
      (\<exists>cfg. parse raw1 base1 = Inr (cfg, validate cfg) \<and>
             side_defaulted (front_side cfg) \<and> side_defaulted (back_side cfg) \<and>
             (\<forall>a as. opt_prop raw1 ''contentArea'' = Arr (a # as) \<longrightarrow>
                list_all area_resolved (contentArea cfg) \<and>
                length (contentArea cfg) = Suc (length as)))) \<and>
   (\<not> well_formed raw2 base2 \<longrightarrow> parse raw2 base2 = Inl TypeError) \<and>
   (opt_prop (options st) ''themePath'' = Str tb \<and> tb \<noteq> [] \<longrightarrow>
      (\<exists>cfg ws. loadConfig (Json raw3) st = Inr (st \<lparr> parsedConfig := Some cfg \<rparr>) \<and>
                (if well_formed raw3 tb then parse raw3 tb = Inr (cfg, ws)
                 else parse (Obj []) tb = Inr (cfg, ws))))"
proof -
  have a: "well_formed raw1 base1 \<longrightarrow>
      (\<exists>cfg. parse raw1 base1 = Inr (cfg, validate cfg) \<and>
             side_defaulted (front_side cfg) \<and> side_defaulted (back_side cfg) \<and>
             (\<forall>a as. opt_prop raw1 ''contentArea'' = Arr (a # as) \<longrightarrow>
                list_all area_resolved (contentArea cfg) \<and>
                length (contentArea cfg) = Suc (length as)))"
  proof
    assume "well_formed raw1 base1"
    from parse_succeeds [OF this] obtain cfg where p: "parse raw1 base1 = Inr (cfg, validate cfg)"
      by blast
    from p parse_side_defaulted [OF p] parse_listed_areas [OF p]
    show "\<exists>cfg. parse raw1 base1 = Inr (cfg, validate cfg) \<and>
             side_defaulted (front_side cfg) \<and> side_defaulted (back_side cfg) \<and>
             (\<forall>a as. opt_prop raw1 ''contentArea'' = Arr (a # as) \<longrightarrow>
                list_all area_resolved (contentArea cfg) \<and>
                length (contentArea cfg) = Suc (length as))"
      by blast
  qed
  have b: "\<not> well_formed raw2 base2 \<longrightarrow> parse raw2 base2 = Inl TypeError"
    by (simp add: parse_fails)
  have c: "opt_prop (options st) ''themePath'' = Str tb \<and> tb \<noteq> [] \<longrightarrow>
      (\<exists>cfg ws. loadConfig (Json raw3) st = Inr (st \<lparr> parsedConfig := Some cfg \<rparr>) \<and>
                (if well_formed raw3 tb then parse raw3 tb = Inr (cfg, ws)
                 else parse (Obj []) tb = Inr (cfg, ws)))"
  proof
    assume h: "opt_prop (options st) ''themePath'' = Str tb \<and> tb \<noteq> []"
    then have lc: "loadConfig (Json raw3) st =
           Inr (st \<lparr> parsedConfig := Some
             (case parse raw3 tb of Inr (cfg, ws) \<Rightarrow> cfg | Inl e \<Rightarrow> default_config) \<rparr>)"
      by (simp add: loadConfig_string)
    show "\<exists>cfg ws. loadConfig (Json raw3) st = Inr (st \<lparr> parsedConfig := Some cfg \<rparr>) \<and>
                (if well_formed raw3 tb then parse raw3 tb = Inr (cfg, ws)
                 else parse (Obj []) tb = Inr (cfg, ws))"
    proof (cases "well_formed raw3 tb")
      case True
      from parse_succeeds [OF this] obtain cfg where "parse raw3 tb = Inr (cfg, validate cfg)" by blast
      with lc True show ?thesis by auto
    next
      case False
      from parse_fails [OF this] lc False show ?thesis
        by (auto simp: parse_empty_any_base)
    qed
  qed
  from a b c show ?thesis by blast
qed

text \<open>
  A well-formed descriptor with a frame image and two listed areas, and a malformed one
  (\<open>{"contentArea": [{}, null]}\<close>) that \<open>_loadConfig\<close> replaces by \<open>{}\<close>.
\<close>

theorem normalization_of_well_formed_descriptors_witness:
  "(\<exists>cfg. parse (Obj [(''front'', Obj [(''image'', Str ''./frame-A.png'')]),
                      (''contentArea'', Arr [Obj [(''x'', Num (Fin 46))], Obj []])]) ''/themes/x/'' =
            Inr (cfg, validate cfg) \<and>
          side_defaulted (front_side cfg) \<and> side_defaulted (back_side cfg) \<and>
          list_all area_resolved (contentArea cfg) \<and> length (contentArea cfg) = 2) \<and>
   parse (Obj [(''contentArea'', Arr [Obj [], Null])]) ''/themes/x/'' = Inl TypeError \<and>
   (\<exists>cfg ws.
      loadConfig (Json (Obj [(''contentArea'', Arr [Obj [], Null])]))
        (fresh_controller \<lparr> options := Obj [(''themePath'', Str ''/themes/x/'')] \<rparr>) =
        Inr (fresh_controller \<lparr> options := Obj [(''themePath'', Str ''/themes/x/'')],
                                parsedConfig := Some cfg \<rparr>) \<and>
      parse (Obj []) ''/themes/x/'' = Inr (cfg, ws))"
proof -
  have h1: "well_formed (Obj [(''front'', Obj [(''image'', Str ''./frame-A.png'')]),
                      (''contentArea'', Arr [Obj [(''x'', Num (Fin 46))], Obj []])]) ''/themes/x/''"
    by (simp add: well_formed_def nullish_def side_descriptor_def js_or_def image_ok_def entries_ok_def)
  have h2: "\<not> well_formed (Obj [(''contentArea'', Arr [Obj [], Null])]) ''/themes/x/''"
    by (simp add: well_formed_def nullish_def entries_ok_def)
  have h3: "opt_prop (options (fresh_controller \<lparr> options := Obj [(''themePath'', Str ''/themes/x/'')] \<rparr>))
              ''themePath'' = Str ''/themes/x/'' \<and> ''/themes/x/'' \<noteq> []"
    by simp
  have h4: "opt_prop (Obj [(''front'', Obj [(''image'', Str ''./frame-A.png'')]),
                      (''contentArea'', Arr [Obj [(''x'', Num (Fin 46))], Obj []])]) ''contentArea'' =
            Arr [Obj [(''x'', Num (Fin 46))], Obj []]"
    by simp
  show ?thesis
    using normalization_of_well_formed_descriptors
      [of "Obj [(''front'', Obj [(''image'', Str ''./frame-A.png'')]),
                (''contentArea'', Arr [Obj [(''x'', Num (Fin 46))], Obj []])]" "''/themes/x/''"
          "Obj [(''contentArea'', Arr [Obj [], Null])]" "''/themes/x/''"
          "fresh_controller \<lparr> options := Obj [(''themePath'', Str ''/themes/x/'')] \<rparr>" "''/themes/x/''"
          "Obj [(''contentArea'', Arr [Obj [], Null])]"]
      h1 h2 h3 h4
    by (simp add: numeral_2_eq_2)
qed

text \<open>
  C9 as stated fails: \<open>parse\<close> throws on \<open>{"contentArea": [null]}\<close>, on
  \<open>{"front": {"image": 5}}\<close> and on \<open>null\<close>.
\<close>

theorem normalization_throws_counterexample:
  "parse (Obj [(''contentArea'', Arr [Null])]) ''/themes/x/'' = Inl TypeError \<and>
   parse (Obj [(''front'', Obj [(''image'', Num (Fin 5))])]) ''/themes/x/'' = Inl TypeError \<and>
   parse Null ''/themes/x/'' = Inl TypeError"
  apply (intro conjI)
  subgoal by (simp add: parse_def bind_def get_prop_def nullish_def js_or_def js_nc_def
      parseSideConfig_def parseContentAreas_def parseAreaEntry_def Let_def)
  subgoal by (simp add: parse_def bind_def get_prop_def nullish_def js_or_def js_nc_def
      parseSideConfig_def parseContentAreas_def default_areas_def resolveDependencies_def
      resolveImagePaths_def resolveSideImage_def resolvePath_def endsWith_def Let_def)
  subgoal by (simp add: parse_def bind_def get_prop_def nullish_def)
  done

section \<open>Failures that reach the caller\<close>


















end
